theory Spec2Isabelle
  imports Main
begin

section \<open>Kratgo: the caching reverse proxy (internal/proxy/proxy.go)\<close>

text \<open>
  Go byte slices and strings are lists of bytes; an Isabelle \<open>char\<close> is one byte.
\<close>

type_synonym bytes = string

subsection \<open>HTTP messages (fasthttp)\<close>

text \<open>
  A header block is the ordered list of its \<open>(key, value)\<close> pairs, keys in canonical
  form. The status code of a response is the stored integer; fasthttp reads a stored
  \<open>0\<close> (nothing set) as \<open>200\<close>.
\<close>

record request =
  reqMethod :: bytes
  reqHost :: bytes
  reqPathOriginal :: bytes
  reqHeader :: "(bytes \<times> bytes) list"

record response =
  statusCode :: nat
  body :: bytes
  respHeader :: "(bytes \<times> bytes) list"

record RequestCtx =
  Request :: request
  Response :: response

text \<open>\<open>Do(req, resp) error\<close> of a backend: the error, if any, and the filled response.\<close>

type_synonym fetcher = "request \<Rightarrow> response \<Rightarrow> string option \<times> response"

subsection \<open>Cache entries (package cache)\<close>

record ResponseHeader =
  Key :: bytes
  Value :: bytes

record cache_Response =
  Path :: bytes
  Body :: bytes
  Headers :: "ResponseHeader list"

text \<open>\<open>cache.Entry\<close>: the responses cached for one host, in order.\<close>

type_synonym Entry = "cache_Response list"

record Cache =
  store :: "bytes \<rightharpoonup> bytes"
  maxEntrySize :: nat

subsection \<open>Rules\<close>

record ruleParam =
  name :: string
  subKey :: string

text \<open>
  A compiled \<open>govaluate.EvaluableExpression\<close>; it carries the text it was compiled
  from (its \<open>String()\<close>).
\<close>

datatype EvaluableExpression = Expression string

record rule =
  expr :: EvaluableExpression
  params :: "ruleParam list"

datatype typeHeaderAction = setHeaderAction | unsetHeaderAction

record headerValue =
  hvValue :: string
  hvSubKey :: string

record headerRule =
  hrAction :: typeHeaderAction
  hrName :: string
  hrExpr :: "EvaluableExpression option"
  hrParams :: "ruleParam list"
  hrValue :: headerValue

subsection \<open>The proxy\<close>

text \<open>
  The fields of \<open>Proxy\<close> that the request path reads and writes. \<open>totalBackends\<close> and
  \<open>currentBackend\<close> are Go \<open>int\<close>s.
\<close>

record Proxy =
  backends :: "fetcher list"
  totalBackends :: int
  currentBackend :: int
  cache :: Cache
  nocacheRules :: "rule list"
  headersRules :: "headerRule list"

text \<open>
  \<open>p.backends[i]\<close>: an index outside the slice panics (\<open>None\<close>). The fetcher comes with
  its position in \<open>p.backends\<close>, which stands for the identity of the pointer.
\<close>

definition backendAt :: "Proxy \<Rightarrow> int \<Rightarrow> (nat \<times> fetcher) option" where
  "backendAt p i =
     (if 0 \<le> i \<and> nat i < length (backends p) then Some (nat i, backends p ! nat i)
      else None)"

definition getBackend :: "Proxy \<Rightarrow> (nat \<times> fetcher) option \<times> Proxy" where
  "getBackend p =
     (if totalBackends p = 1 then (backendAt p 0, p)
      else
        let p' = (if currentBackend p \<ge> totalBackends p - 1
                  then p\<lparr>currentBackend := 0\<rparr>
                  else p\<lparr>currentBackend := currentBackend p + 1\<rparr>)
        in (backendAt p' (currentBackend p'), p'))"

text \<open>\<open>n\<close> sequential calls of \<open>getBackend\<close>: the results in call order, and the final proxy.\<close>

fun getBackends :: "nat \<Rightarrow> Proxy \<Rightarrow> (nat \<times> fetcher) option list \<times> Proxy" where
  "getBackends 0 p = ([], p)"
| "getBackends (Suc n) p =
     (let (b, p') = getBackend p; (bs, p'') = getBackends n p' in (b # bs, p''))"

text \<open>Sample proxies: one backend, and three backends with the cursor where \<open>New\<close> leaves it.\<close>

definition okFetcher :: fetcher where
  "okFetcher = (\<lambda>req resp. (None, resp\<lparr>statusCode := 200\<rparr>))"

definition emptyCache :: Cache where
  "emptyCache = \<lparr>store = Map.empty, maxEntrySize = 1000\<rparr>"

definition proxyOf :: "fetcher list \<Rightarrow> Proxy" where
  "proxyOf bs = \<lparr>backends = bs, totalBackends = int (length bs), currentBackend = 0,
     cache = emptyCache, nocacheRules = [], headersRules = []\<rparr>"

section \<open>Rule compilation (\<open>newEvaluableExpression\<close>)\<close>

text \<open>
  \<open>strings.Replace(s, old, new, -1)\<close>: every non-overlapping occurrence of \<open>old\<close>,
  found from left to right, is replaced. An empty \<open>old\<close> matches before every
  character and at the end (one \<open>char\<close> stands for one rune here).
\<close>

fun Replace :: "string \<Rightarrow> string \<Rightarrow> string \<Rightarrow> string" where
  "Replace [] old new = (if old = [] then new else [])"
| "Replace (c # s) old new =
     (if old = [] then new @ c # Replace s old new
      else if take (length old) (c # s) = old
           then new @ Replace (drop (length old - 1) s) old new
           else c # Replace s old new)"

text \<open>
  What \<open>newEvaluableExpression\<close> calls outside \<open>proxy.go\<close>, taken as parameters:
  \<open>config.ConfigVarRegex.MatchString\<close>, \<open>config.ParseConfigKeys\<close> (it returns
  \<open>configKey\<close>, \<open>evalKey\<close>, \<open>evalSubKey\<close>; the state \<open>'s\<close> is whatever it keeps
  between calls to number its identifiers) and \<open>govaluate.NewEvaluableExpression\<close>.
\<close>

record 's compiler =
  MatchString :: "string \<Rightarrow> bool"
  ParseConfigKeys :: "'s \<Rightarrow> string \<Rightarrow> (string \<times> string \<times> string) \<times> 's"
  NewEvaluableExpression :: "string \<Rightarrow> string + EvaluableExpression"

text \<open>
  The \<open>for\<close> loop of \<open>newEvaluableExpression\<close>. It ends with the error of an
  unparsable token (\<open>Inl\<close>) or with the rewritten rule and the descriptors; \<open>None\<close>
  is a loop that never ends.
\<close>

partial_function (option) newEvaluableExpression_loop ::
  "'s compiler \<Rightarrow> 's \<Rightarrow> string \<Rightarrow> ruleParam list
     \<Rightarrow> ((string + string \<times> ruleParam list) \<times> 's) option" where
  "newEvaluableExpression_loop C s rule ps =
     (if MatchString C rule then
        (let r = ParseConfigKeys C s rule;
             configKey = fst (fst r); evalKey = fst (snd (fst r)); evalSubKey = snd (snd (fst r))
         in if configKey = [] \<and> evalKey = [] \<and> evalSubKey = []
            then Some (Inl (''Invalid condition: '' @ rule), snd r)
            else newEvaluableExpression_loop C (snd r) (Replace rule configKey evalKey)
                   (ps @ [\<lparr>name = evalKey, subKey = evalSubKey\<rparr>]))
      else Some (Inr (rule, ps), s))"

declare newEvaluableExpression_loop.simps [code]

definition newEvaluableExpression ::
  "'s compiler \<Rightarrow> 's \<Rightarrow> string
     \<Rightarrow> ((string + EvaluableExpression \<times> ruleParam list) \<times> 's) option" where
  "newEvaluableExpression C s rule =
     (case newEvaluableExpression_loop C s rule [] of
        None \<Rightarrow> None
      | Some (Inl e, s') \<Rightarrow> Some (Inl e, s')
      | Some (Inr (rule', ps), s') \<Rightarrow>
          (case NewEvaluableExpression C rule' of
             Inl e \<Rightarrow> Some (Inl e, s')
           | Inr ex \<Rightarrow> Some (Inr (ex, ps), s')))"

subsection \<open>The token grammar of package config\<close>

text \<open>
  Modelled from the spec: \<open>config.ConfigVarRegex\<close> and \<open>config.ParseConfigKeys\<close> are
  not in the sources at hand. A token is \<open>$(NAME)\<close> or \<open>$(NAME::SUBKEY)\<close>; the
  names \<open>method\<close>, \<open>host\<close>, \<open>path\<close>, \<open>contentType\<close>, \<open>statusCode\<close> take no
  subkey and map to a fixed variable; \<open>req.header\<close>, \<open>resp.header\<close>, \<open>cookie\<close>
  need one and map to a variable with an ascending two-digit number. Anything else
  is reported by three empty strings.
\<close>

definition tokenAt :: "string \<Rightarrow> string option" where
  "tokenAt s =
     (if take 2 s = ''$('' \<and> CHR '')'' \<in> set (drop 2 s)
      then Some (''$('' @ takeWhile (\<lambda>c. c \<noteq> CHR '')'') (drop 2 s) @ '')'')
      else None)"

fun findToken :: "string \<Rightarrow> string option" where
  "findToken [] = None"
| "findToken (c # s) = (case tokenAt (c # s) of Some t \<Rightarrow> Some t | None \<Rightarrow> findToken s)"

fun splitSubKey :: "string \<Rightarrow> string \<times> string option" where
  "splitSubKey [] = ([], None)"
| "splitSubKey (c # s) =
     (if take 2 (c # s) = ''::'' then ([], Some (drop 1 s))
      else (case splitSubKey s of (n, k) \<Rightarrow> (c # n, k)))"

definition twoDigits :: "nat \<Rightarrow> string" where
  "twoDigits n = [char_of (48 + (n div 10) mod 10), char_of (48 + n mod 10)]"

definition specParseConfigKeys :: "nat \<Rightarrow> string \<Rightarrow> (string \<times> string \<times> string) \<times> nat" where
  "specParseConfigKeys n text =
     (case findToken text of
        None \<Rightarrow> (([], [], []), n)
      | Some tok \<Rightarrow>
          (case splitSubKey (take (length tok - 3) (drop 2 tok)) of
             (nm, None) \<Rightarrow>
               if nm \<in> set [''method'', ''host'', ''path'', ''contentType'', ''statusCode'']
               then ((tok, ''V_'' @ nm, []), n)
               else (([], [], []), n)
           | (nm, Some sk) \<Rightarrow>
               if sk = [] then (([], [], []), n)
               else if nm = ''req.header''
                 then ((tok, ''V_reqHeader'' @ twoDigits (Suc n), sk), Suc n)
               else if nm = ''resp.header''
                 then ((tok, ''V_respHeader'' @ twoDigits (Suc n), sk), Suc n)
               else if nm = ''cookie''
                 then ((tok, ''V_cookie'' @ twoDigits (Suc n), sk), Suc n)
               else (([], [], []), n)))"

text \<open>The compiler with this grammar; every rewritten text is accepted as an expression.\<close>

definition specCompiler :: "nat compiler" where
  "specCompiler = \<lparr>MatchString = (\<lambda>s. findToken s \<noteq> None),
     ParseConfigKeys = specParseConfigKeys,
     NewEvaluableExpression = (\<lambda>s. Inr (Expression s))\<rparr>"

text \<open>
  A compilation result has \<open>n\<close> descriptors with pairwise distinct identifiers.
\<close>

definition distinctBindings ::
  "((string + EvaluableExpression \<times> ruleParam list) \<times> 's) option \<Rightarrow> nat \<Rightarrow> bool" where
  "distinctBindings r n =
     (case r of
        Some (Inr (ex, ps), s') \<Rightarrow> length ps = n \<and> distinct (map name ps)
      | _ \<Rightarrow> False)"

section \<open>fasthttp operations used by the proxy\<close>

definition StatusOK :: nat where "StatusOK = 200"

definition StatusInternalServerError :: nat where "StatusInternalServerError = 500"

definition headerLocation :: bytes where "headerLocation = ''Location''"

text \<open>\<open>Response.StatusCode()\<close>: a response on which no status was set reads as 200.\<close>

definition StatusCode :: "response \<Rightarrow> nat" where
  "StatusCode r = (if statusCode r = 0 then StatusOK else statusCode r)"

definition SetStatusCode :: "nat \<Rightarrow> response \<Rightarrow> response" where
  "SetStatusCode n r = r\<lparr>statusCode := n\<rparr>"

definition SetBody :: "bytes \<Rightarrow> response \<Rightarrow> response" where
  "SetBody b r = r\<lparr>body := b\<rparr>"

text \<open>\<open>Header.SetCanonical(key, value)\<close>: the value of \<open>key\<close> is replaced, or the pair added.\<close>

fun SetCanonical :: "bytes \<Rightarrow> bytes \<Rightarrow> (bytes \<times> bytes) list \<Rightarrow> (bytes \<times> bytes) list" where
  "SetCanonical k v [] = [(k, v)]"
| "SetCanonical k v ((k', v') # hs) =
     (if k' = k then (k, v) # hs else (k', v') # SetCanonical k v hs)"

text \<open>\<open>Header.Peek(key)\<close>: the value of \<open>key\<close>, empty when the header is absent.\<close>

definition Peek :: "bytes \<Rightarrow> (bytes \<times> bytes) list \<Rightarrow> bytes" where
  "Peek k hs = (case map_of hs k of None \<Rightarrow> [] | Some v \<Rightarrow> v)"

text \<open>
  \<open>ctx.Error(msg, code)\<close>: the response is reset, then given the status, the plain-text
  content type and the message as body.
\<close>

definition ctxError :: "string \<Rightarrow> nat \<Rightarrow> RequestCtx \<Rightarrow> RequestCtx" where
  "ctxError msg code c =
     c\<lparr>Response := \<lparr>statusCode = code, body = msg,
                     respHeader = [(''Content-Type'', ''text/plain; charset=utf-8'')]\<rparr>\<rparr>"

text \<open>The zero request and response, and the context fasthttp hands to the handler.\<close>

definition emptyRequest :: request where
  "emptyRequest = \<lparr>reqMethod = [], reqHost = [], reqPathOriginal = [], reqHeader = []\<rparr>"

definition emptyResponse :: response where
  "emptyResponse = \<lparr>statusCode = 0, body = [], respHeader = []\<rparr>"

definition newCtx :: "request \<Rightarrow> RequestCtx" where
  "newCtx req = \<lparr>Request = req, Response = emptyResponse\<rparr>"

section \<open>Package cache\<close>

text \<open>
  Modelled from the spec: package \<open>cache\<close> (\<open>Entry\<close>, \<open>Response\<close>, the codec and
  the store) is not in the sources at hand. An entry holds at most one response per
  path; \<open>GetResponse\<close> returns the response whose path is byte-equal to the argument;
  \<open>SetResponse\<close> replaces the response with the same path or appends; \<open>SetHeader\<close>
  appends a header.
\<close>

definition GetResponse :: "Entry \<Rightarrow> bytes \<Rightarrow> cache_Response option" where
  "GetResponse e path = find (\<lambda>r. Path r = path) e"

fun SetResponse :: "cache_Response \<Rightarrow> Entry \<Rightarrow> Entry" where
  "SetResponse r [] = [r]"
| "SetResponse r (x # xs) = (if Path x = Path r then r # xs else x # SetResponse r xs)"

definition SetHeader :: "bytes \<Rightarrow> bytes \<Rightarrow> cache_Response \<Rightarrow> cache_Response" where
  "SetHeader k v r = r\<lparr>Headers := Headers r @ [\<lparr>Key = k, Value = v\<rparr>]\<rparr>"

definition AcquireResponse :: cache_Response where
  "AcquireResponse = \<lparr>Path = [], Body = [], Headers = []\<rparr>"

subsection \<open>The codec\<close>

text \<open>
  Modelled from the spec: a blob is one schema version byte followed by
  length-prefixed fields, per response \<open>Path | Body | HeaderCount | (HeaderKey |
  HeaderValue)*\<close>; a blob with another version byte is rejected. The spec leaves the
  width of a length open; here a length is written in base 128, low digit first, with
  the high bit set on every byte but the last, so that every length has an encoding.
\<close>

definition schemaVersion :: char where "schemaVersion = char_of (1::nat)"

function encLen :: "nat \<Rightarrow> bytes" where
  "encLen n = (if n < 128 then [char_of n] else char_of (128 + n mod 128) # encLen (n div 128))"
  by pat_completeness auto
termination
  by (relation "measure id") auto

declare encLen.simps [simp del]

fun decLen :: "bytes \<Rightarrow> (nat \<times> bytes) option" where
  "decLen [] = None"
| "decLen (c # cs) =
     (if (of_char c :: nat) < 128 then Some (of_char c, cs)
      else (case decLen cs of
              None \<Rightarrow> None
            | Some (m, rest) \<Rightarrow> Some ((of_char c - 128) + 128 * m, rest)))"

definition encBytes :: "bytes \<Rightarrow> bytes" where
  "encBytes b = encLen (length b) @ b"

definition decBytes :: "bytes \<Rightarrow> (bytes \<times> bytes) option" where
  "decBytes s =
     (case decLen s of
        None \<Rightarrow> None
      | Some (n, rest) \<Rightarrow> if length rest < n then None else Some (take n rest, drop n rest))"

definition encHeader :: "ResponseHeader \<Rightarrow> bytes" where
  "encHeader h = encBytes (Key h) @ encBytes (Value h)"

definition decHeader :: "bytes \<Rightarrow> (ResponseHeader \<times> bytes) option" where
  "decHeader s =
     (case decBytes s of
        None \<Rightarrow> None
      | Some (k, s1) \<Rightarrow>
          (case decBytes s1 of
             None \<Rightarrow> None
           | Some (v, s2) \<Rightarrow> Some (\<lparr>Key = k, Value = v\<rparr>, s2)))"

text \<open>\<open>n\<close> items in a row, each read by \<open>d\<close>.\<close>

fun decMany :: "(bytes \<Rightarrow> ('a \<times> bytes) option) \<Rightarrow> nat \<Rightarrow> bytes \<Rightarrow> ('a list \<times> bytes) option" where
  "decMany d 0 s = Some ([], s)"
| "decMany d (Suc n) s =
     (case d s of
        None \<Rightarrow> None
      | Some (x, s1) \<Rightarrow>
          (case decMany d n s1 of
             None \<Rightarrow> None
           | Some (xs, s2) \<Rightarrow> Some (x # xs, s2)))"

definition encResponse :: "cache_Response \<Rightarrow> bytes" where
  "encResponse r =
     encBytes (Path r) @ encBytes (Body r) @ encLen (length (Headers r))
       @ concat (map encHeader (Headers r))"

definition decResponse :: "bytes \<Rightarrow> (cache_Response \<times> bytes) option" where
  "decResponse s =
     (case decBytes s of
        None \<Rightarrow> None
      | Some (p, s1) \<Rightarrow>
          (case decBytes s1 of
             None \<Rightarrow> None
           | Some (b, s2) \<Rightarrow>
               (case decLen s2 of
                  None \<Rightarrow> None
                | Some (n, s3) \<Rightarrow>
                    (case decMany decHeader n s3 of
                       None \<Rightarrow> None
                     | Some (hs, s4) \<Rightarrow> Some (\<lparr>Path = p, Body = b, Headers = hs\<rparr>, s4)))))"

definition Marshal :: "Entry \<Rightarrow> bytes" where
  "Marshal e = schemaVersion # encLen (length e) @ concat (map encResponse e)"

definition Unmarshal :: "bytes \<Rightarrow> string + Entry" where
  "Unmarshal blob =
     (case blob of
        [] \<Rightarrow> Inl ''empty blob''
      | v # s \<Rightarrow>
          if v \<noteq> schemaVersion then Inl ''unknown schema version''
          else (case decLen s of
                  None \<Rightarrow> Inl ''truncated blob''
                | Some (n, s1) \<Rightarrow>
                    (case decMany decResponse n s1 of
                       None \<Rightarrow> Inl ''truncated blob''
                     | Some (e, rest) \<Rightarrow>
                         if rest = [] then Inr e else Inl ''trailing bytes'')))"

subsection \<open>The store\<close>

text \<open>
  Modelled from the spec: \<open>SetBytes(host, entry)\<close> encodes the entry and upserts the
  blob, rejecting a blob longer than \<open>MaxEntrySize\<close>; \<open>GetBytes(host, entry)\<close>
  decodes the blob of the host into the caller's entry, and a host that is not found
  yields an empty entry and no error. Expiry and eviction are not modelled.
\<close>

definition SetBytes :: "Cache \<Rightarrow> bytes \<Rightarrow> Entry \<Rightarrow> string + Cache" where
  "SetBytes c key e =
     (if length (Marshal e) > maxEntrySize c then Inl ''entry is bigger than max entry size''
      else Inr (c\<lparr>store := (store c)(key \<mapsto> Marshal e)\<rparr>))"

definition GetBytes :: "Cache \<Rightarrow> bytes \<Rightarrow> string + Entry" where
  "GetBytes c key = (case store c key of None \<Rightarrow> Inr [] | Some blob \<Rightarrow> Unmarshal blob)"

section \<open>The request path\<close>

text \<open>
  The per-request scratch bundle (\<open>proxyTools\<close>): the request and response buffers of
  the HTTP client and the entry buffer. \<open>releaseTools\<close> resets all of them before the
  bundle goes back to the pool, so \<open>acquireTools\<close> always hands out an empty bundle.
\<close>

record proxyTools =
  hcReq :: request
  hcResp :: response
  entry :: Entry

definition acquireTools :: proxyTools where
  "acquireTools = \<lparr>hcReq = emptyRequest, hcResp = emptyResponse, entry = []\<rparr>"

text \<open>
  Rule evaluation is outside \<open>proxy.go\<close> and is taken as a parameter:
  \<open>checkIfNoCache(req, resp, rules, params)\<close> returns an error or whether a no-cache
  rule fired; \<open>processHeaderRules(rules, params)\<close> of the HTTP client returns an error
  or the header block of the backend response after the header rules.
\<close>

record helpers =
  checkIfNoCache :: "request \<Rightarrow> response \<Rightarrow> rule list \<Rightarrow> string + bool"
  processHeaderRules :: "request \<Rightarrow> response \<Rightarrow> headerRule list \<Rightarrow> string + (bytes \<times> bytes) list"

text \<open>
  Modelled from the spec: the remaining methods of the HTTP client are not in the
  sources at hand. The incoming request headers are cloned into the client buffer,
  method and URI are set, the request is stamped with the proxy-identifying header
  and handed to \<open>Backend.Do\<close>; afterwards the request headers and the (mutated)
  response headers are copied to the context.
\<close>

definition proxyReqHeaderKey :: bytes where "proxyReqHeaderKey = ''X-Kratgo-Proxy''"

definition proxyReqHeaderValue :: bytes where "proxyReqHeaderValue = ''true''"

definition cloneHeaders :: "request \<Rightarrow> request \<Rightarrow> request" where
  "cloneHeaders dst src = dst\<lparr>reqHost := reqHost src, reqHeader := reqHeader src\<rparr>"

definition setMethodBytes :: "bytes \<Rightarrow> request \<Rightarrow> request" where
  "setMethodBytes m r = r\<lparr>reqMethod := m\<rparr>"

definition setRequestURIBytes :: "bytes \<Rightarrow> request \<Rightarrow> request" where
  "setRequestURIBytes u r = r\<lparr>reqPathOriginal := u\<rparr>"

definition httpClient_do :: "fetcher \<Rightarrow> request \<Rightarrow> response \<Rightarrow> string option \<times> request \<times> response" where
  "httpClient_do backend req resp =
     (let req' = req\<lparr>reqHeader := SetCanonical proxyReqHeaderKey proxyReqHeaderValue (reqHeader req)\<rparr>;
          (err, resp') = backend req' resp
      in (err, req', resp'))"

definition copyReqHeaderTo :: "request \<Rightarrow> request \<Rightarrow> request" where
  "copyReqHeaderTo src dst = dst\<lparr>reqHeader := reqHeader src\<rparr>"

definition copyRespHeaderTo :: "response \<Rightarrow> response \<Rightarrow> response" where
  "copyRespHeaderTo src dst = dst\<lparr>respHeader := respHeader src\<rparr>"

text \<open>
  What a request does beyond the proxy and the context is kept in a trace: each
  evaluation of the no-cache rules (before and after the backend was asked) and each
  call of a backend, by its position in \<open>p.backends\<close>.
\<close>

datatype event = EvalOnRequest | EvalOnResponse | Forwarded nat

record world =
  proxy :: Proxy
  ctx :: RequestCtx
  trace :: "event list"

text \<open>
  \<open>saveBackendResponse\<close>: the new cache response takes the path, the body and every
  header of the outbound response; it is put into the entry and the entry is stored.
\<close>

definition saveBackendResponse ::
  "Proxy \<Rightarrow> bytes \<Rightarrow> bytes \<Rightarrow> response \<Rightarrow> Entry \<Rightarrow> string option \<times> Proxy" where
  "saveBackendResponse p cacheKey path resp en =
     (let r0 = AcquireResponse;
          r1 = r0\<lparr>Path := Path r0 @ path\<rparr>;
          r2 = r1\<lparr>Body := Body r1 @ body resp\<rparr>;
          r3 = fold (\<lambda>(k, v). SetHeader k v) (respHeader resp) r2;
          en' = SetResponse r3 en
      in case SetBytes (cache p) cacheKey en' of
           Inl e \<Rightarrow>
             (Some (''Could not save response in cache for key '' @ [CHR 0x27] @ cacheKey
                      @ [CHR 0x27] @ '': '' @ e), p)
         | Inr c \<Rightarrow> (None, p\<lparr>cache := c\<rparr>))"

text \<open>
  \<open>fetchFromBackend\<close>. The result is \<open>None\<close> when \<open>getBackend\<close> panics, else the
  returned error and the world after the call.
\<close>

definition fetchFromBackend ::
  "helpers \<Rightarrow> bytes \<Rightarrow> bytes \<Rightarrow> proxyTools \<Rightarrow> world \<Rightarrow> (string option \<times> world) option" where
  "fetchFromBackend H cacheKey path pt w =
     (let req1 = setRequestURIBytes path
                   (setMethodBytes (reqMethod (Request (ctx w)))
                      (cloneHeaders (hcReq pt) (Request (ctx w))));
          (b, p1) = getBackend (proxy w)
      in case b of
           None \<Rightarrow> None
         | Some (i, backend) \<Rightarrow>
             (let (err, req2, resp1) = httpClient_do backend req1 (hcResp pt);
                  w1 = w\<lparr>proxy := p1, trace := trace w @ [Forwarded i]\<rparr>
              in case err of
                   Some e \<Rightarrow> Some (Some (''Could not fetch response from backend: '' @ e), w1)
                 | None \<Rightarrow>
                     (case processHeaderRules H req2 resp1 (headersRules p1) of
                        Inl e \<Rightarrow> Some (Some (''Could not process headers rules: '' @ e), w1)
                      | Inr hs \<Rightarrow>
                          (let resp2 = resp1\<lparr>respHeader := hs\<rparr>;
                               c1 = (ctx w)\<lparr>Request := copyReqHeaderTo req2 (Request (ctx w)),
                                            Response := copyRespHeaderTo resp2 (Response (ctx w))\<rparr>;
                               w2 = w1\<lparr>ctx := c1\<rparr>
                           in if length (Peek headerLocation (respHeader resp2)) > 0
                              then Some (None, w2)
                              else
                                (let w3 = w2\<lparr>trace := trace w2 @ [EvalOnResponse]\<rparr>
                                 in case checkIfNoCache H req2 resp2 (nocacheRules p1) of
                                      Inl e \<Rightarrow> Some (Some e, w3)
                                    | Inr noCache \<Rightarrow>
                                        (let c2 = c1\<lparr>Response :=
                                                    SetBody (body resp2)
                                                      (SetStatusCode (StatusCode resp2) (Response c1))\<rparr>;
                                             w4 = w3\<lparr>ctx := c2\<rparr>
                                         in if noCache \<or> StatusCode (Response c2) \<noteq> StatusOK
                                            then Some (None, w4)
                                            else
                                              (case saveBackendResponse p1 cacheKey path
                                                      (Response c2) (entry pt) of
                                                 (err', p2) \<Rightarrow> Some (err', w4\<lparr>proxy := p2\<rparr>))))))))"

text \<open>
  The end of \<open>handler\<close>, reached by every path but the cache hit: the backend is
  asked, and an error of \<open>fetchFromBackend\<close> becomes a 500 response.
\<close>

definition handler_fetch :: "helpers \<Rightarrow> bytes \<Rightarrow> bytes \<Rightarrow> proxyTools \<Rightarrow> world \<Rightarrow> world option" where
  "handler_fetch H cacheKey path pt w =
     (case fetchFromBackend H cacheKey path pt w of
        None \<Rightarrow> None
      | Some (Some e, w') \<Rightarrow> Some (w'\<lparr>ctx := ctxError e StatusInternalServerError (ctx w')\<rparr>)
      | Some (None, w') \<Rightarrow> Some w')"

text \<open>The cache hit: the cached body and headers are written to the outbound response.\<close>

definition serveCached :: "cache_Response \<Rightarrow> RequestCtx \<Rightarrow> RequestCtx" where
  "serveCached r c =
     c\<lparr>Response :=
         (let resp1 = SetBody (Body r) (Response c)
          in resp1\<lparr>respHeader := fold (\<lambda>h. SetCanonical (Key h) (Value h)) (Headers r) (respHeader resp1)\<rparr>)\<rparr>"

definition handler :: "helpers \<Rightarrow> world \<Rightarrow> world option" where
  "handler H w =
     (let pt = acquireTools;
          path = reqPathOriginal (Request (ctx w));
          cacheKey = reqHost (Request (ctx w));
          w0 = w\<lparr>trace := trace w @ [EvalOnRequest]\<rparr>
      in case checkIfNoCache H (Request (ctx w)) (Response (ctx w)) (nocacheRules (proxy w)) of
           Inl e \<Rightarrow>
             handler_fetch H cacheKey path pt
               (w0\<lparr>ctx := ctxError e StatusInternalServerError (ctx w0)\<rparr>)
         | Inr noCache \<Rightarrow>
             if \<not> noCache then
               (case GetBytes (cache (proxy w0)) cacheKey of
                  Inl e \<Rightarrow>
                    handler_fetch H cacheKey path pt
                      (w0\<lparr>ctx := ctxError e StatusInternalServerError (ctx w0)\<rparr>)
                | Inr en \<Rightarrow>
                    (case GetResponse en path of
                       Some r \<Rightarrow> Some (w0\<lparr>ctx := serveCached r (ctx w0)\<rparr>)
                     | None \<Rightarrow> handler_fetch H cacheKey path (pt\<lparr>entry := en\<rparr>) w0))
             else handler_fetch H cacheKey path pt w0)"

section \<open>Statements about the request path\<close>

text \<open>
  The cache has an entry for the host, and the entry holds a response whose path is
  byte-equal to the given path: the response found, if any.
\<close>

definition cacheLookup :: "Cache \<Rightarrow> bytes \<Rightarrow> bytes \<Rightarrow> cache_Response option" where
  "cacheLookup c key path =
     (case store c key of
        None \<Rightarrow> None
      | Some blob \<Rightarrow>
          (case Unmarshal blob of
             Inl e \<Rightarrow> None
           | Inr en \<Rightarrow> find (\<lambda>r. Path r = path) en))"

text \<open>
  The request sent to the backend for a context, a path and a tool bundle, before the
  HTTP client stamps it.
\<close>

definition backendRequest :: "bytes \<Rightarrow> proxyTools \<Rightarrow> RequestCtx \<Rightarrow> request" where
  "backendRequest path pt c =
     setRequestURIBytes path (setMethodBytes (reqMethod (Request c)) (cloneHeaders (hcReq pt) (Request c)))"

text \<open>
  A backend reply \<open>resp\<close> to \<open>req\<close> is admitted to the cache: the header rules ran
  without error, the headers they leave carry no \<open>Location\<close> value, the no-cache
  rules ran without error on the reply and none fired, and the status is exactly 200.
\<close>

definition admitted :: "helpers \<Rightarrow> Proxy \<Rightarrow> request \<Rightarrow> response \<Rightarrow> bool" where
  "admitted H p req resp =
     (case processHeaderRules H req resp (headersRules p) of
        Inl e \<Rightarrow> False
      | Inr hs \<Rightarrow>
          Peek headerLocation hs = [] \<and>
          checkIfNoCache H req (resp\<lparr>respHeader := hs\<rparr>) (nocacheRules p) = Inr False \<and>
          StatusCode resp = StatusOK)"

text \<open>The cache response made of a reply once the header rules have run.\<close>

definition cachedReply :: "helpers \<Rightarrow> Proxy \<Rightarrow> request \<Rightarrow> response \<Rightarrow> bytes \<Rightarrow> cache_Response" where
  "cachedReply H p req resp path =
     \<lparr>Path = path, Body = body resp,
      Headers = map (\<lambda>(k, v). \<lparr>Key = k, Value = v\<rparr>)
                  (case processHeaderRules H req resp (headersRules p) of
                     Inl e \<Rightarrow> []
                   | Inr hs \<Rightarrow> hs)\<rparr>"

text \<open>
  What is seen of a call of \<open>fetchFromBackend\<close>: the returned error, the blob stored
  under the cache key afterwards, and the trace. Of a run of \<open>handler\<close>: the status
  the client gets, the trace, and the blob stored under the host.
\<close>

definition fetchOutcome ::
  "helpers \<Rightarrow> bytes \<Rightarrow> bytes \<Rightarrow> proxyTools \<Rightarrow> world \<Rightarrow> (string option \<times> bytes option \<times> event list) option" where
  "fetchOutcome H key path pt w =
     (case fetchFromBackend H key path pt w of
        None \<Rightarrow> None
      | Some (e, w') \<Rightarrow> Some (e, store (cache (proxy w')) key, trace w'))"

definition handlerOutcome :: "helpers \<Rightarrow> world \<Rightarrow> (nat \<times> event list \<times> bytes option) option" where
  "handlerOutcome H w =
     (case handler H w of
        None \<Rightarrow> None
      | Some w' \<Rightarrow>
          Some (StatusCode (Response (ctx w')), trace w',
                store (cache (proxy w')) (reqHost (Request (ctx w)))))"

subsection \<open>Sample backends, helpers and worlds\<close>

text \<open>
  A backend that answers every request with a fixed reply; helpers for a proxy with
  no rules configured; helpers whose no-cache evaluation always fails, as it does
  for a rule that names a variable no descriptor binds.
\<close>

definition replyWith :: "response \<Rightarrow> fetcher" where
  "replyWith r = (\<lambda>req resp. (None, r))"

definition plainHelpers :: helpers where
  "plainHelpers = \<lparr>checkIfNoCache = (\<lambda>req resp rules. Inr False),
     processHeaderRules = (\<lambda>req resp rules. Inr (respHeader resp))\<rparr>"

definition errHelpers :: helpers where
  "errHelpers = \<lparr>checkIfNoCache = (\<lambda>req resp rules. Inl ''Invalid nocache rule''),
     processHeaderRules = (\<lambda>req resp rules. Inr (respHeader resp))\<rparr>"

definition sampleRequest :: request where
  "sampleRequest = \<lparr>reqMethod = ''GET'', reqHost = ''test'', reqPathOriginal = ''/test/'', reqHeader = []\<rparr>"

definition worldOf :: "Proxy \<Rightarrow> request \<Rightarrow> world" where
  "worldOf p req = \<lparr>proxy = p, ctx = newCtx req, trace = []\<rparr>"

definition redirectReply :: response where
  "redirectReply = \<lparr>statusCode = 200, body = ''Test Body'',
     respHeader = [(''Location'', ''http://www.kratgo.com'')]\<rparr>"

definition emptyLocationReply :: response where
  "emptyLocationReply = \<lparr>statusCode = 200, body = ''Test Body'', respHeader = [(''Location'', [])]\<rparr>"

section \<open>Construction of the proxy (\<open>New\<close>)\<close>

text \<open>
  The configuration as \<open>New\<close> reads it. Durations are Go \<open>time.Duration\<close> values,
  written in the file as a number of minutes.
\<close>

record config_Cache =
  TTL :: int
  CleanFrequency :: int
  MaxEntries :: int
  MaxEntrySize :: int
  HardMaxCacheSize :: int

record config_Header =
  hName :: string
  hValue :: string
  hWhen :: string

record config_Proxy =
  Addr :: string
  BackendsAddrs :: "string list"
  HeadersSet :: "config_Header list"
  HeadersUnset :: "config_Header list"
  Nocache :: "string list"

record Config =
  LogLevel :: string
  LogOutput :: string
  cfgCache :: config_Cache
  cfgProxy :: config_Proxy

text \<open>The configuration \<open>New\<close> passes to \<open>cache.New\<close>.\<close>

record cache_Config =
  cTTL :: int
  cCleanFrequency :: int
  cMaxEntries :: int
  cMaxEntrySize :: int
  cHardMaxCacheSize :: int
  cVerbose :: bool

definition Minute :: int where "Minute = 60000000000"

definition DEBUG :: string where "DEBUG = ''debug''"

text \<open>
  What \<open>New\<close> calls outside \<open>proxy.go\<close>, taken as parameters: \<open>getLogOutput\<close> (its
  error, if any), \<open>cache.New\<close>, the backend behind an address
  (\<open>fasthttp.HostClient\<close>) and the rule compiler. The logger, the server and the
  invalidator that \<open>New\<close> also creates are read by none of the operations here and
  are left out of \<open>Proxy\<close>.
\<close>

record 's startup =
  getLogOutput :: "string \<Rightarrow> string option"
  cache_New :: "cache_Config \<Rightarrow> string + Cache"
  HostClient :: "string \<Rightarrow> fetcher"
  ruleCompiler :: "'s compiler"

definition ruleError :: "string \<Rightarrow> string \<Rightarrow> string" where
  "ruleError r e =
     ''Could not get the evaluable expression for rule '' @ [CHR 0x27] @ r @ [CHR 0x27] @ '': '' @ e"

fun parseNocacheRules ::
  "'s compiler \<Rightarrow> string list \<Rightarrow> 's \<Rightarrow> Proxy \<Rightarrow> ((string + Proxy) \<times> 's) option" where
  "parseNocacheRules C [] s p = Some (Inr p, s)"
| "parseNocacheRules C (ncRule # rest) s p =
     (case newEvaluableExpression C s ncRule of
        None \<Rightarrow> None
      | Some (Inl e, s') \<Rightarrow> Some (Inl (ruleError ncRule e), s')
      | Some (Inr (ex, ps), s') \<Rightarrow>
          parseNocacheRules C rest s'
            (p\<lparr>nocacheRules := nocacheRules p @ [\<lparr>expr = ex, params = [] @ ps\<rparr>]\<rparr>))"

text \<open>The value part of one header rule: the last \<open>if\<close> of the loop body.\<close>

definition headerRuleValue ::
  "'s compiler \<Rightarrow> typeHeaderAction \<Rightarrow> config_Header \<Rightarrow> 's \<Rightarrow> headerValue \<times> 's" where
  "headerRuleValue C action h s =
     (if action = setHeaderAction then
        (let r = ParseConfigKeys C s (hValue h);
             evalKey = fst (snd (fst r)); evalSubKey = snd (snd (fst r))
         in if evalKey \<noteq> [] then (\<lparr>hvValue = evalKey, hvSubKey = evalSubKey\<rparr>, snd r)
            else (\<lparr>hvValue = hValue h, hvSubKey = []\<rparr>, snd r))
      else (\<lparr>hvValue = [], hvSubKey = []\<rparr>, s))"

fun parseHeadersRules ::
  "'s compiler \<Rightarrow> typeHeaderAction \<Rightarrow> config_Header list \<Rightarrow> 's \<Rightarrow> Proxy
     \<Rightarrow> ((string + Proxy) \<times> 's) option" where
  "parseHeadersRules C action [] s p = Some (Inr p, s)"
| "parseHeadersRules C action (h # rest) s p =
     (if hWhen h \<noteq> [] then
        (case newEvaluableExpression C s (hWhen h) of
           None \<Rightarrow> None
         | Some (Inl e, s') \<Rightarrow> Some (Inl (ruleError (hWhen h) e), s')
         | Some (Inr (ex, ps), s') \<Rightarrow>
             (case headerRuleValue C action h s' of
                (v, s'') \<Rightarrow>
                  parseHeadersRules C action rest s''
                    (p\<lparr>headersRules := headersRules p @
                         [\<lparr>hrAction = action, hrName = hName h, hrExpr = Some ex,
                           hrParams = [] @ ps, hrValue = v\<rparr>]\<rparr>)))
      else
        (case headerRuleValue C action h s of
           (v, s'') \<Rightarrow>
             parseHeadersRules C action rest s''
               (p\<lparr>headersRules := headersRules p @
                    [\<lparr>hrAction = action, hrName = hName h, hrExpr = None,
                      hrParams = [], hrValue = v\<rparr>]\<rparr>)))"

text \<open>
  \<open>New\<close>: the error it returns, or the proxy. \<open>None\<close> is a rule whose compilation
  never ends.
\<close>

definition New :: "'s startup \<Rightarrow> 's \<Rightarrow> Config \<Rightarrow> ((string + Proxy) \<times> 's) option" where
  "New E s cfg =
     (case getLogOutput E (LogOutput cfg) of
        Some err \<Rightarrow> Some (Inl err, s)
      | None \<Rightarrow>
          (let cacheVerbose = (LogLevel cfg = DEBUG);
               cacheCleanFrequency = CleanFrequency (cfgCache cfg)
           in if cacheCleanFrequency = 0
              then Some (Inl ''Cache.CleanFrequency configuration must be greater than 0'', s)
              else
                (case cache_New E
                        \<lparr>cTTL = TTL (cfgCache cfg) * Minute,
                         cCleanFrequency = cacheCleanFrequency * Minute,
                         cMaxEntries = MaxEntries (cfgCache cfg),
                         cMaxEntrySize = MaxEntrySize (cfgCache cfg),
                         cHardMaxCacheSize = HardMaxCacheSize (cfgCache cfg),
                         cVerbose = cacheVerbose\<rparr> of
                   Inl err \<Rightarrow> Some (Inl err, s)
                 | Inr c \<Rightarrow>
                     (let p = \<lparr>backends = map (HostClient E) (BackendsAddrs (cfgProxy cfg)),
                               totalBackends = int (length (BackendsAddrs (cfgProxy cfg))),
                               currentBackend = 0,
                               cache = c, nocacheRules = [], headersRules = []\<rparr>
                      in case parseNocacheRules (ruleCompiler E) (Nocache (cfgProxy cfg)) s p of
                           None \<Rightarrow> None
                         | Some (Inl err, s1) \<Rightarrow> Some (Inl err, s1)
                         | Some (Inr p1, s1) \<Rightarrow>
                             (case parseHeadersRules (ruleCompiler E) setHeaderAction
                                     (HeadersSet (cfgProxy cfg)) s1 p1 of
                                None \<Rightarrow> None
                              | Some (Inl err, s2) \<Rightarrow> Some (Inl err, s2)
                              | Some (Inr p2, s2) \<Rightarrow>
                                  (case parseHeadersRules (ruleCompiler E) unsetHeaderAction
                                          (HeadersUnset (cfgProxy cfg)) s2 p2 of
                                     None \<Rightarrow> None
                                   | Some (Inl err, s3) \<Rightarrow> Some (Inl err, s3)
                                   | Some (Inr p3, s3) \<Rightarrow> Some (Inr p3, s3)))))))"

text \<open>
  What is seen of \<open>New\<close>: its error, or the number of backends of the proxy it
  returns and what the first request to that proxy ends with.
\<close>

definition NewOutcome ::
  "'s startup \<Rightarrow> 's \<Rightarrow> Config \<Rightarrow> helpers \<Rightarrow> request
     \<Rightarrow> (string + int \<times> nat \<times> (nat \<times> event list \<times> bytes option) option) option" where
  "NewOutcome E s cfg H req =
     (case New E s cfg of
        None \<Rightarrow> None
      | Some (Inl err, s') \<Rightarrow> Some (Inl err)
      | Some (Inr p, s') \<Rightarrow>
          Some (Inr (totalBackends p, length (backends p), handlerOutcome H (worldOf p req))))"

text \<open>
  A start-up environment in which the log output opens, the cache is created empty
  and every address answers 200; and the configuration of the repository's test
  \<open>ErrorNoBackendAddrs\<close>, with a clean frequency of five minutes.
\<close>

definition sampleStartup :: "nat startup" where
  "sampleStartup = \<lparr>getLogOutput = (\<lambda>out. None),
     cache_New = (\<lambda>c. Inr \<lparr>store = Map.empty, maxEntrySize = nat (cMaxEntrySize c)\<rparr>),
     HostClient = (\<lambda>addr. (\<lambda>req resp. (None, resp\<lparr>statusCode := 200\<rparr>))),
     ruleCompiler = specCompiler\<rparr>"

definition noBackendsConfig :: Config where
  "noBackendsConfig =
     \<lparr>LogLevel = ''fatal'', LogOutput = ''console'',
      cfgCache = \<lparr>TTL = 10, CleanFrequency = 5, MaxEntries = 5, MaxEntrySize = 20,
                  HardMaxCacheSize = 30\<rparr>,
      cfgProxy = \<lparr>Addr = ''localhost:9999'', BackendsAddrs = [],
         HeadersSet = [\<lparr>hName = ''X-Kratgo'', hValue = ''true'',
                         hWhen = ''$(resp.header::X-Data) == '' @ [CHR 0x27] @ ''1'' @ [CHR 0x27]\<rparr>],
         HeadersUnset = [\<lparr>hName = ''X-Data'', hValue = [],
                           hWhen = ''$(resp.header::X-Data) == '' @ [CHR 0x27] @ ''1'' @ [CHR 0x27]\<rparr>],
         Nocache = [''$(host) == '' @ [CHR 0x27] @ ''localhost'' @ [CHR 0x27]]\<rparr>\<rparr>"

section \<open>The admin invalidation view (modules/admin/http.go)\<close>

text \<open>\<open>invalidator.Entry\<close> and \<open>invalidator.EntryHeader\<close>, as the JSON body fills them.\<close>

record EntryHeader =
  ehKey :: string
  ehValue :: string

record invalidator_Entry =
  Host :: string
  invPath :: string
  Header :: EntryHeader

text \<open>
  Modelled from the spec: \<open>Invalidator.Add\<close> is not in the sources at hand. The
  invalidator keeps a bounded FIFO channel of entries; \<open>Add\<close> rejects a malformed
  entry (one without a host) and an entry that finds the queue full, and enqueues
  every other entry.
\<close>

record Invalidator =
  chEntries :: "invalidator_Entry list"
  chCapacity :: nat

definition Add :: "Invalidator \<Rightarrow> invalidator_Entry \<Rightarrow> string + Invalidator" where
  "Add i e =
     (if Host e = [] then Inl ''invalid entry: the host is mandatory''
      else if length (chEntries i) \<ge> chCapacity i then Inl ''invalidation queue is full''
      else Inr (i\<lparr>chEntries := chEntries i @ [e]\<rparr>))"

record Admin =
  invalidator :: Invalidator

text \<open>
  The request context of the view: the posted body and the response.
  \<open>ctx.TextResponse(body, status)\<close> writes a plain-text response, with status 200
  when none is given, and returns no error.
\<close>

record atreugo_RequestCtx =
  PostBody :: bytes
  viewResponse :: response

definition TextResponse :: "string \<Rightarrow> nat \<Rightarrow> atreugo_RequestCtx \<Rightarrow> atreugo_RequestCtx" where
  "TextResponse b status c =
     c\<lparr>viewResponse :=
         \<lparr>statusCode = status, body = b,
          respHeader = SetCanonical ''Content-Type'' ''text/plain; charset=utf-8''
                         (respHeader (viewResponse c))\<rparr>\<rparr>"

text \<open>
  \<open>invalidateView\<close>, with \<open>json.Unmarshal\<close> into an \<open>invalidator.Entry\<close> as a
  parameter. The result is the error returned to the framework (if any), the
  context and the admin module afterwards.
\<close>

definition invalidateView ::
  "(bytes \<Rightarrow> string + invalidator_Entry) \<Rightarrow> Admin \<Rightarrow> atreugo_RequestCtx
     \<Rightarrow> string option \<times> atreugo_RequestCtx \<times> Admin" where
  "invalidateView json_Unmarshal a c =
     (case json_Unmarshal (PostBody c) of
        Inl err \<Rightarrow> (Some err, c, a)
      | Inr e \<Rightarrow>
          (case Add (invalidator a) e of
             Inl err \<Rightarrow> (None, TextResponse err 400 c, a)
           | Inr i \<Rightarrow> (None, TextResponse ''OK'' 200 c, a\<lparr>invalidator := i\<rparr>)))"

text \<open>
  The view answered with the given status: it returned no error and wrote that
  status.
\<close>

definition answered ::
  "string option \<times> atreugo_RequestCtx \<times> Admin \<Rightarrow> nat \<Rightarrow> bool" where
  "answered r status = (fst r = None \<and> StatusCode (viewResponse (fst (snd r))) = status)"

text \<open>
  A decoder that agrees with \<open>encoding/json\<close> on the three bodies used below: the
  truncated body \<open>{\<close> does not parse, \<open>{}\<close> gives the entry with every field
  empty, and a body with just a host gives that host.
\<close>

definition hostBody :: bytes where
  "hostBody = ''{'' @ [CHR 0x22] @ ''host'' @ [CHR 0x22] @ '':'' @ [CHR 0x22] @ ''www.kratgo.com''
     @ [CHR 0x22] @ ''}''"

definition sampleUnmarshal :: "bytes \<Rightarrow> string + invalidator_Entry" where
  "sampleUnmarshal b =
     (if b = ''{}'' then Inr \<lparr>Host = [], invPath = [], Header = \<lparr>ehKey = [], ehValue = []\<rparr>\<rparr>
      else if b = hostBody
        then Inr \<lparr>Host = ''www.kratgo.com'', invPath = [], Header = \<lparr>ehKey = [], ehValue = []\<rparr>\<rparr>
      else Inl ''unexpected end of JSON input'')"

definition sampleAdmin :: Admin where
  "sampleAdmin = \<lparr>invalidator = \<lparr>chEntries = [], chCapacity = 2\<rparr>\<rparr>"

definition postOf :: "bytes \<Rightarrow> atreugo_RequestCtx" where
  "postOf b = \<lparr>PostBody = b, viewResponse = emptyResponse\<rparr>"

section \<open>Sample values\<close>

definition sampleResponse :: cache_Response where
  "sampleResponse = \<lparr>Path = ''/test/'', Body = ''Test Body'',
     Headers = [\<lparr>Key = ''X-Data'', Value = ''1''\<rparr>]\<rparr>"

definition sampleReply :: response where
  "sampleReply = \<lparr>statusCode = 200, body = ''Test Body'', respHeader = [(''X-Data'', ''1'')]\<rparr>"

definition sampleStored :: Cache where
  "sampleStored = emptyCache\<lparr>store := (store emptyCache)(''test'' \<mapsto> Marshal [sampleResponse])\<rparr>"

text \<open>A world whose cache holds the sample entry under the host \<open>test\<close>.\<close>

definition storedWorld :: "request \<Rightarrow> world" where
  "storedWorld req = worldOf ((proxyOf [replyWith sampleReply])\<lparr>cache := sampleStored\<rparr>) req"

section \<open>Rule compilation\<close>

lemma Replace_skip:
  "CHR ''$'' \<notin> set a \<Longrightarrow>
   Replace (a @ r) (CHR ''$'' # t) new = a @ Replace r (CHR ''$'' # t) new"
  by (induction a) auto

lemma Replace_hit:
  "Replace ((c0 # t) @ r) (c0 # t) new = new @ Replace r (c0 # t) new"
  by simp

lemma Replace_none:
  "CHR ''$'' \<notin> set c \<Longrightarrow> Replace c (CHR ''$'' # t) new = c"
  using Replace_skip[where a = c and r = "[]" and t = t and new = new] by simp

lemma Replace_twice:
  assumes "CHR ''$'' \<notin> set a \<union> set b \<union> set c"
  shows "Replace (a @ (CHR ''$'' # t) @ b @ (CHR ''$'' # t) @ c) (CHR ''$'' # t) new
    = a @ new @ b @ new @ c"
proof -
  have a: "CHR ''$'' \<notin> set a" and b: "CHR ''$'' \<notin> set b" and c: "CHR ''$'' \<notin> set c"
    using assms by auto
  show ?thesis
    by (simp only: Replace_skip[OF a] Replace_skip[OF b] Replace_hit Replace_none[OF c])
qed

text \<open>
  Claim C1, as amended. A rule in which the same token occurs twice (and no other
  \<open>$\<close>) is compiled in a single pass of the loop: \<open>strings.Replace\<close> with count
  \<open>-1\<close> puts the one identifier returned by \<open>ParseConfigKeys\<close> at both places, and
  exactly one descriptor is emitted, so both occurrences share one binding.
\<close>

theorem newEvaluableExpression_repeated_token:
  assumes "MatchString C (a @ (CHR ''$'' # t) @ b @ (CHR ''$'' # t) @ c)"
    and "ParseConfigKeys C s (a @ (CHR ''$'' # t) @ b @ (CHR ''$'' # t) @ c)
           = ((CHR ''$'' # t, ek, sk), s')"
    and "CHR ''$'' \<notin> set a \<union> set b \<union> set c"
    and "\<not> MatchString C (a @ ek @ b @ ek @ c)"
  shows "newEvaluableExpression C s (a @ (CHR ''$'' # t) @ b @ (CHR ''$'' # t) @ c) =
     (case NewEvaluableExpression C (a @ ek @ b @ ek @ c) of
        Inl e \<Rightarrow> Some (Inl e, s')
      | Inr ex \<Rightarrow> Some (Inr (ex, [\<lparr>name = ek, subKey = sk\<rparr>]), s'))"
proof -
  let ?rule = "a @ (CHR ''$'' # t) @ b @ (CHR ''$'' # t) @ c"
  have r: "Replace ?rule (CHR ''$'' # t) ek = a @ ek @ b @ ek @ c"
    using Replace_twice[OF assms(3)] .
  have l2: "newEvaluableExpression_loop C s' (a @ ek @ b @ ek @ c) [\<lparr>name = ek, subKey = sk\<rparr>]
      = Some (Inr (a @ ek @ b @ ek @ c, [\<lparr>name = ek, subKey = sk\<rparr>]), s')"
    using assms(4) by (subst newEvaluableExpression_loop.simps) simp
  have l1: "newEvaluableExpression_loop C s ?rule []
      = Some (Inr (a @ ek @ b @ ek @ c, [\<lparr>name = ek, subKey = sk\<rparr>]), s')"
    using assms(1,2) r l2
    by (subst newEvaluableExpression_loop.simps) (simp add: Let_def)
  show ?thesis
    unfolding newEvaluableExpression_def l1 by (simp split: sum.splits)
qed

theorem newEvaluableExpression_repeated_token_witness:
  "MatchString specCompiler ([] @ (CHR ''$'' # ''(req.header::X)'') @ '' == '' @ (CHR ''$'' # ''(req.header::X)'') @ []) \<and>
   ParseConfigKeys specCompiler 0 ([] @ (CHR ''$'' # ''(req.header::X)'') @ '' == '' @ (CHR ''$'' # ''(req.header::X)'') @ [])
     = ((CHR ''$'' # ''(req.header::X)'', ''V_reqHeader01'', ''X''), Suc 0) \<and>
   CHR ''$'' \<notin> set [] \<union> set '' == '' \<union> set [] \<and>
   \<not> MatchString specCompiler ([] @ ''V_reqHeader01'' @ '' == '' @ ''V_reqHeader01'' @ []) \<and>
   newEvaluableExpression specCompiler 0 ''$(req.header::X) == $(req.header::X)''
     = Some (Inr (Expression ''V_reqHeader01 == V_reqHeader01'',
                  [\<lparr>name = ''V_reqHeader01'', subKey = ''X''\<rparr>]), Suc 0)"
proof -
  have h1: "MatchString specCompiler ([] @ (CHR ''$'' # ''(req.header::X)'') @ '' == '' @ (CHR ''$'' # ''(req.header::X)'') @ [])"
    by code_simp
  have h2: "ParseConfigKeys specCompiler 0 ([] @ (CHR ''$'' # ''(req.header::X)'') @ '' == '' @ (CHR ''$'' # ''(req.header::X)'') @ [])
     = ((CHR ''$'' # ''(req.header::X)'', ''V_reqHeader01'', ''X''), Suc 0)"
    by code_simp
  have h3: "CHR ''$'' \<notin> set [] \<union> set '' == '' \<union> set []"
    by simp
  have h4: "\<not> MatchString specCompiler ([] @ ''V_reqHeader01'' @ '' == '' @ ''V_reqHeader01'' @ [])"
    by code_simp
  have n: "NewEvaluableExpression specCompiler ([] @ ''V_reqHeader01'' @ '' == '' @ ''V_reqHeader01'' @ [])
     = Inr (Expression ''V_reqHeader01 == V_reqHeader01'')"
    by (simp add: specCompiler_def)
  have "newEvaluableExpression specCompiler 0 ''$(req.header::X) == $(req.header::X)''
     = Some (Inr (Expression ''V_reqHeader01 == V_reqHeader01'',
                  [\<lparr>name = ''V_reqHeader01'', subKey = ''X''\<rparr>]), Suc 0)"
    using newEvaluableExpression_repeated_token[OF h1 h2 h3 h4] unfolding n by simp
  with h1 h2 h3 h4 show ?thesis by blast
qed

text \<open>
  The claim as stated fails on \<open>$(req.header::X) == $(req.header::X)\<close>: the result
  does not have two descriptors with distinct identifiers.
\<close>

theorem newEvaluableExpression_two_bindings_counterexample:
  "\<not> distinctBindings
       (newEvaluableExpression specCompiler 0 ''$(req.header::X) == $(req.header::X)'') 2"
  by code_simp

section \<open>Backend selection\<close>

lemma getBackend_single:
  "totalBackends p = 1 \<Longrightarrow> backends p \<noteq> [] \<Longrightarrow> getBackend p = (Some (0, backends p ! 0), p)"
  by (simp add: getBackend_def backendAt_def)

lemma getBackend_step:
  assumes "totalBackends p = int (length (backends p))" "1 < length (backends p)"
    "0 \<le> currentBackend p" "currentBackend p < totalBackends p"
  shows "getBackend p =
     (Some ((nat (currentBackend p) + 1) mod length (backends p),
            backends p ! ((nat (currentBackend p) + 1) mod length (backends p))),
      p\<lparr>currentBackend := int ((nat (currentBackend p) + 1) mod length (backends p))\<rparr>)"
proof (cases "currentBackend p \<ge> totalBackends p - 1")
  case True
  with assms have c: "nat (currentBackend p) + 1 = length (backends p)" by linarith
  have m: "(nat (currentBackend p) + 1) mod length (backends p) = 0"
    unfolding c by simp
  have ne: "backends p \<noteq> []" using assms(2) by auto
  show ?thesis using assms True ne unfolding m
    by (simp add: getBackend_def backendAt_def Let_def)
next
  case False
  with assms have lt: "nat (currentBackend p) + 1 < length (backends p)" by linarith
  then have m: "(nat (currentBackend p) + 1) mod length (backends p) = nat (currentBackend p) + 1"
    by simp
  have e: "nat (currentBackend p + 1) = nat (currentBackend p) + 1" using assms(3) by linarith
  have ne: "backends p \<noteq> []" using assms(2) by auto
  show ?thesis using assms False lt ne unfolding m
    by (simp add: getBackend_def backendAt_def Let_def e)
qed

lemma getBackends_seq:
  assumes "totalBackends p = int (length (backends p))" "1 < length (backends p)"
    "0 \<le> currentBackend p" "currentBackend p < totalBackends p"
  shows "getBackends n p =
     (map (\<lambda>j. Some ((nat (currentBackend p) + 1 + j) mod length (backends p),
                      backends p ! ((nat (currentBackend p) + 1 + j) mod length (backends p)))) [0..<n],
      p\<lparr>currentBackend := int ((nat (currentBackend p) + n) mod length (backends p))\<rparr>)"
  using assms
proof (induction n arbitrary: p)
  case 0
  then show ?case by simp
next
  case (Suc n)
  let ?N = "length (backends p)"
  let ?c = "nat (currentBackend p)"
  let ?p' = "p\<lparr>currentBackend := int ((?c + 1) mod ?N)\<rparr>"
  have st: "getBackend p = (Some ((?c + 1) mod ?N, backends p ! ((?c + 1) mod ?N)), ?p')"
    using getBackend_step[OF Suc.prems] .
  have N: "0 < ?N" using Suc.prems(2) by auto
  have inv: "totalBackends ?p' = int (length (backends ?p'))" "1 < length (backends ?p')"
    "0 \<le> currentBackend ?p'" "currentBackend ?p' < totalBackends ?p'"
    using Suc.prems N by simp_all
  have a: "\<And>j. ((?c + 1) mod ?N + 1 + j) mod ?N = (?c + 1 + Suc j) mod ?N"
  proof -
    fix j
    have "((?c + 1) mod ?N + (1 + j)) mod ?N = (?c + 1 + (1 + j)) mod ?N"
      by (rule mod_add_left_eq)
    then show "((?c + 1) mod ?N + 1 + j) mod ?N = (?c + 1 + Suc j) mod ?N"
      by (simp only: add.assoc plus_1_eq_Suc)
  qed
  have b: "((?c + 1) mod ?N + n) mod ?N = (?c + Suc n) mod ?N"
    by (simp add: mod_add_left_eq)
  have sel: "backends ?p' = backends p" "nat (currentBackend ?p') = (?c + 1) mod ?N"
    by simp_all
  have upd: "?p'\<lparr>currentBackend := int ((?c + Suc n) mod ?N)\<rparr>
      = p\<lparr>currentBackend := int ((?c + Suc n) mod ?N)\<rparr>"
    by simp
  have ih: "getBackends n ?p' =
     (map (\<lambda>j. Some ((?c + 1 + Suc j) mod ?N, backends p ! ((?c + 1 + Suc j) mod ?N))) [0..<n],
      p\<lparr>currentBackend := int ((?c + Suc n) mod ?N)\<rparr>)"
    using Suc.IH[OF inv] unfolding sel a b upd .
  have m: "map (\<lambda>j. Some ((?c + 1 + j) mod ?N, backends p ! ((?c + 1 + j) mod ?N))) [0..<Suc n]
      = Some ((?c + 1) mod ?N, backends p ! ((?c + 1) mod ?N)) #
        map (\<lambda>j. Some ((?c + 1 + Suc j) mod ?N, backends p ! ((?c + 1 + Suc j) mod ?N))) [0..<n]"
    by (simp only: upt_conv_Cons[OF zero_less_Suc] list.map map_Suc_upt[symmetric] map_map o_def) simp
  show ?case
    unfolding getBackends.simps st m
    by (simp only: Let_def prod.case ih)
qed

lemma rot_aux:
  assumes "x \<le> y" "y < (N::nat)" "(a + x) mod N = (a + y) mod N"
  shows "x = y"
proof -
  have "N dvd (a + y) - (a + x)"
    using assms(1,3) mod_eq_dvd_iff_nat[of "a + x" "a + y" N] by simp
  then have "N dvd y - x" by simp
  moreover have "y - x < N" using assms(2) by simp
  ultimately have "y - x = 0" using nat_dvd_not_less by blast
  then show ?thesis using assms(1) by simp
qed

lemma rot_perm:
  assumes "0 < (N::nat)"
  shows "distinct (map (\<lambda>j. (a + j) mod N) [0..<N]) \<and> set (map (\<lambda>j. (a + j) mod N) [0..<N]) = {0..<N}"
proof -
  have inj: "inj_on (\<lambda>j. (a + j) mod N) {0..<N}"
  proof (rule inj_onI)
    fix x y assume x: "x \<in> {0..<N}" and y: "y \<in> {0..<N}" and e: "(a + x) mod N = (a + y) mod N"
    show "x = y"
    proof (cases "x \<le> y")
      case True
      then show ?thesis using rot_aux[of x y N a] y e by simp
    next
      case False
      then show ?thesis using rot_aux[of y x N a] x e by simp
    qed
  qed
  have d: "distinct (map (\<lambda>j. (a + j) mod N) [0..<N])"
    using inj by (simp add: distinct_map)
  have sub: "set (map (\<lambda>j. (a + j) mod N) [0..<N]) \<subseteq> {0..<N}"
    using assms by auto
  have "card (set (map (\<lambda>j. (a + j) mod N) [0..<N])) = N"
    using d distinct_card by fastforce
  then have "set (map (\<lambda>j. (a + j) mod N) [0..<N]) = {0..<N}"
    using sub by (simp add: card_subset_eq)
  with d show ?thesis by simp
qed

text \<open>
  Claim C5. With exactly one backend configured, every call of \<open>getBackend\<close> returns
  \<open>backends[0]\<close> and leaves the proxy as it was. With \<open>N > 1\<close> backends and the cursor
  inside the slice, one call moves the cursor by one, wrapping from the last index to
  \<open>0\<close>, and returns the backend under the new cursor; \<open>N\<close> consecutive calls all
  succeed and return every position of \<open>backends\<close> exactly once.
\<close>

theorem getBackend_round_robin:
  "(totalBackends p = 1 \<and> backends p \<noteq> [] \<longrightarrow>
      getBackend p = (Some (0, backends p ! 0), p)) \<and>
   (1 < length (backends p) \<and> totalBackends p = int (length (backends p)) \<and>
    0 \<le> currentBackend p \<and> currentBackend p < totalBackends p \<longrightarrow>
      currentBackend (snd (getBackend p)) = (currentBackend p + 1) mod totalBackends p \<and>
      fst (getBackend p) =
        Some (nat (currentBackend (snd (getBackend p))),
              backends p ! nat (currentBackend (snd (getBackend p)))) \<and>
      length (fst (getBackends (length (backends p)) p)) = length (backends p) \<and>
      distinct (map (map_option fst) (fst (getBackends (length (backends p)) p))) \<and>
      set (map (map_option fst) (fst (getBackends (length (backends p)) p)))
        = Some ` {0..<length (backends p)} \<and>
      (\<forall>r \<in> set (fst (getBackends (length (backends p)) p)).
         \<exists>i < length (backends p). r = Some (i, backends p ! i)))"
proof (intro conjI impI)
  assume "totalBackends p = 1 \<and> backends p \<noteq> []"
  then show "getBackend p = (Some (0, backends p ! 0), p)"
    by (simp add: getBackend_single)
next
  assume h: "1 < length (backends p) \<and> totalBackends p = int (length (backends p)) \<and>
    0 \<le> currentBackend p \<and> currentBackend p < totalBackends p"
  let ?N = "length (backends p)"
  let ?c = "nat (currentBackend p)"
  have N: "0 < ?N" using h by auto
  have st: "getBackend p = (Some ((?c + 1) mod ?N, backends p ! ((?c + 1) mod ?N)),
      p\<lparr>currentBackend := int ((?c + 1) mod ?N)\<rparr>)"
    using getBackend_step[of p] h by blast
  have sq: "getBackends ?N p =
     (map (\<lambda>j. Some ((?c + 1 + j) mod ?N, backends p ! ((?c + 1 + j) mod ?N))) [0..<?N],
      p\<lparr>currentBackend := int ((?c + ?N) mod ?N)\<rparr>)"
    using getBackends_seq[of p ?N] h by blast
  have ix: "map (map_option fst) (fst (getBackends ?N p)) =
      map Some (map (\<lambda>j. (?c + 1 + j) mod ?N) [0..<?N])"
    unfolding sq by simp
  have i1: "int (?c + 1) = currentBackend p + 1" using h by linarith
  have i2: "int ((?c + 1) mod ?N) = int (?c + 1) mod int ?N" by (rule zmod_int)
  have cur: "int ((?c + 1) mod ?N) = (currentBackend p + 1) mod totalBackends p"
    using h unfolding i2 i1 by simp
  show "currentBackend (snd (getBackend p)) = (currentBackend p + 1) mod totalBackends p"
    unfolding st using cur by simp
  show "fst (getBackend p) =
        Some (nat (currentBackend (snd (getBackend p))),
              backends p ! nat (currentBackend (snd (getBackend p))))"
    unfolding st by simp
  show "length (fst (getBackends ?N p)) = ?N"
    unfolding sq by simp
  show "distinct (map (map_option fst) (fst (getBackends ?N p)))"
  proof -
    have "distinct (map (\<lambda>j. (?c + 1 + j) mod ?N) [0..<?N])"
      using rot_perm[OF N, of "?c + 1"] by blast
    then show ?thesis unfolding ix
      by (simp only: distinct_map[of Some] inj_on_def option.inject) blast
  qed
  show "set (map (map_option fst) (fst (getBackends ?N p))) = Some ` {0..<?N}"
    unfolding ix using rot_perm[OF N, of "?c + 1"] by (simp only: set_map)
  show "\<forall>r \<in> set (fst (getBackends ?N p)). \<exists>i < ?N. r = Some (i, backends p ! i)"
    unfolding sq using N by auto
qed

theorem getBackend_round_robin_witness:
  "(totalBackends (proxyOf [okFetcher]) = 1 \<and> backends (proxyOf [okFetcher]) \<noteq> []) \<and>
   getBackend (proxyOf [okFetcher]) = (Some (0, okFetcher), proxyOf [okFetcher]) \<and>
   (1 < length (backends (proxyOf [okFetcher, okFetcher, okFetcher])) \<and>
    totalBackends (proxyOf [okFetcher, okFetcher, okFetcher])
      = int (length (backends (proxyOf [okFetcher, okFetcher, okFetcher]))) \<and>
    0 \<le> currentBackend (proxyOf [okFetcher, okFetcher, okFetcher]) \<and>
    currentBackend (proxyOf [okFetcher, okFetcher, okFetcher])
      < totalBackends (proxyOf [okFetcher, okFetcher, okFetcher])) \<and>
   set (map (map_option fst) (fst (getBackends 3 (proxyOf [okFetcher, okFetcher, okFetcher]))))
     = {Some 0, Some 1, Some 2}"
proof -
  have h1: "totalBackends (proxyOf [okFetcher]) = 1 \<and> backends (proxyOf [okFetcher]) \<noteq> []"
    by (simp add: proxyOf_def)
  have h3: "1 < length (backends (proxyOf [okFetcher, okFetcher, okFetcher])) \<and>
    totalBackends (proxyOf [okFetcher, okFetcher, okFetcher])
      = int (length (backends (proxyOf [okFetcher, okFetcher, okFetcher]))) \<and>
    0 \<le> currentBackend (proxyOf [okFetcher, okFetcher, okFetcher]) \<and>
    currentBackend (proxyOf [okFetcher, okFetcher, okFetcher])
      < totalBackends (proxyOf [okFetcher, okFetcher, okFetcher])"
    by (simp add: proxyOf_def)
  have l3: "length (backends (proxyOf [okFetcher, okFetcher, okFetcher])) = 3"
    by (simp add: proxyOf_def)
  have b1: "backends (proxyOf [okFetcher]) ! 0 = okFetcher"
    by (simp add: proxyOf_def)
  have s3: "Some ` {0..<(3::nat)} = {Some 0, Some 1, Some 2}"
    by (auto simp: atLeastLessThan_def lessThan_def atLeast_def)
  from getBackend_round_robin[of "proxyOf [okFetcher]"] h1 b1
  have c1: "getBackend (proxyOf [okFetcher]) = (Some (0, okFetcher), proxyOf [okFetcher])"
    by simp
  from getBackend_round_robin[of "proxyOf [okFetcher, okFetcher, okFetcher]"] h3
  have c3: "set (map (map_option fst) (fst (getBackends 3 (proxyOf [okFetcher, okFetcher, okFetcher]))))
     = Some ` {0..<(3::nat)}"
    unfolding l3 by blast
  show ?thesis using h1 h3 c1 c3 unfolding s3 by blast
qed

section \<open>The cache codec and the store\<close>

lemma decLen_encLen: "decLen (encLen n @ rest) = Some (n, rest)"
proof (induction n arbitrary: rest rule: encLen.induct)
  case (1 n)
  show ?case
  proof (cases "n < 128")
    case True
    then have "encLen n = [char_of n]" by (simp add: encLen.simps)
    moreover have "(of_char (char_of n) :: nat) = n" using True by simp
    ultimately show ?thesis using True by simp
  next
    case False
    have e: "encLen n = char_of (128 + n mod 128) # encLen (n div 128)"
      using False by (subst encLen.simps) simp
    have lt: "128 + n mod 128 < (256::nat)"
      using mod_less_divisor[of 128 n] by linarith
    have c: "(of_char (char_of (128 + n mod 128)) :: nat) = 128 + n mod 128"
      using lt by simp
    have ih: "decLen (encLen (n div 128) @ rest) = Some (n div 128, rest)"
      using 1[OF False] .
    show ?thesis
      unfolding e by (simp add: c ih)
  qed
qed

lemma decBytes_encBytes: "decBytes (encBytes b @ rest) = Some (b, rest)"
  by (simp add: decBytes_def encBytes_def decLen_encLen)

lemma decHeader_encHeader: "decHeader (encHeader h @ rest) = Some (h, rest)"
  by (simp add: decHeader_def encHeader_def decBytes_encBytes)

lemma decMany_concat:
  assumes "\<And>x r. x \<in> set xs \<Longrightarrow> d (e x @ r) = Some (x, r)"
  shows "decMany d (length xs) (concat (map e xs) @ rest) = Some (xs, rest)"
  using assms by (induction xs) simp_all

lemma decResponse_encResponse: "decResponse (encResponse r @ rest) = Some (r, rest)"
proof -
  have hs: "decMany decHeader (length (Headers r)) (concat (map encHeader (Headers r)) @ rest)
      = Some (Headers r, rest)"
    by (rule decMany_concat) (rule decHeader_encHeader)
  show ?thesis
    by (simp add: decResponse_def encResponse_def decBytes_encBytes decLen_encLen hs)
qed

lemma Unmarshal_Marshal: "Unmarshal (Marshal e) = Inr e"
proof -
  have rs: "decMany decResponse (length e) (concat (map encResponse e) @ []) = Some (e, [])"
    by (rule decMany_concat) (rule decResponse_encResponse)
  show ?thesis
    using rs by (simp add: Unmarshal_def Marshal_def decLen_encLen)
qed

lemma GetBytes_SetBytes:
  "SetBytes c key e = Inr c' \<Longrightarrow> GetBytes c' key = Inr e"
  by (auto simp: SetBytes_def GetBytes_def Unmarshal_Marshal split: if_splits)

lemma GetResponse_SetResponse: "GetResponse (SetResponse r en) (Path r) = Some r"
  by (induction en) (simp_all add: GetResponse_def)

lemma fold_SetHeader:
  "fold (\<lambda>(k, v). SetHeader k v) hs r
     = r\<lparr>Headers := Headers r @ map (\<lambda>(k, v). \<lparr>Key = k, Value = v\<rparr>) hs\<rparr>"
  by (induction hs arbitrary: r) (auto simp: SetHeader_def)

text \<open>The cache response that \<open>saveBackendResponse\<close> builds from an outbound response.\<close>

lemma saveBackendResponse_eq:
  "saveBackendResponse p cacheKey path resp en =
     (case SetBytes (cache p) cacheKey
             (SetResponse \<lparr>Path = path, Body = body resp,
                Headers = map (\<lambda>(k, v). \<lparr>Key = k, Value = v\<rparr>) (respHeader resp)\<rparr> en) of
        Inl e \<Rightarrow>
          (Some (''Could not save response in cache for key '' @ [CHR 0x27] @ cacheKey
                   @ [CHR 0x27] @ '': '' @ e), p)
      | Inr c \<Rightarrow> (None, p\<lparr>cache := c\<rparr>))"
  by (simp add: saveBackendResponse_def AcquireResponse_def fold_SetHeader Let_def)

lemma sample_fits: "\<not> length (Marshal [sampleResponse]) > 1000"
  by code_simp

lemma sample_SetBytes: "SetBytes emptyCache ''test'' [sampleResponse] = Inr sampleStored"
  using sample_fits by (simp add: SetBytes_def sampleStored_def emptyCache_def)

lemma sample_save:
  "saveBackendResponse (proxyOf [okFetcher]) ''test'' ''/test/'' sampleReply []
     = (None, (proxyOf [okFetcher])\<lparr>cache := sampleStored\<rparr>)"
proof -
  have r: "\<lparr>Path = ''/test/'', Body = body sampleReply,
     Headers = map (\<lambda>(k, v). \<lparr>Key = k, Value = v\<rparr>) (respHeader sampleReply)\<rparr> = sampleResponse"
    by (simp add: sampleReply_def sampleResponse_def)
  have c: "cache (proxyOf [okFetcher]) = emptyCache" by (simp add: proxyOf_def)
  show ?thesis
    unfolding saveBackendResponse_eq r c by (simp add: sample_SetBytes)
qed

text \<open>
  Claim C9. Decoding the encoding of an entry gives the entry back, whatever its
  responses are. Hence once \<open>SetBytes\<close> has stored an entry under a host, \<open>GetBytes\<close>
  for that host yields the same entry, with every path, body and header list as it
  was; and after \<open>saveBackendResponse\<close> has succeeded, the entry read back for the
  key holds, under the path, the response built from the path, the body and the
  headers of the outbound response.
\<close>

theorem codec_round_trip:
  "Unmarshal (Marshal e) = Inr e \<and>
   (SetBytes c key e = Inr c' \<longrightarrow> GetBytes c' key = Inr e) \<and>
   (saveBackendResponse p key path resp en = (None, p') \<longrightarrow>
      (\<exists>e'. GetBytes (cache p') key = Inr e' \<and>
            GetResponse e' path =
              Some \<lparr>Path = path, Body = body resp,
                    Headers = map (\<lambda>(k, v). \<lparr>Key = k, Value = v\<rparr>) (respHeader resp)\<rparr>))"
proof (intro conjI impI)
  show "Unmarshal (Marshal e) = Inr e" by (rule Unmarshal_Marshal)
next
  assume "SetBytes c key e = Inr c'"
  then show "GetBytes c' key = Inr e" by (rule GetBytes_SetBytes)
next
  let ?r = "\<lparr>Path = path, Body = body resp,
     Headers = map (\<lambda>(k, v). \<lparr>Key = k, Value = v\<rparr>) (respHeader resp)\<rparr>"
  assume s: "saveBackendResponse p key path resp en = (None, p')"
  then obtain c1 where c1: "SetBytes (cache p) key (SetResponse ?r en) = Inr c1"
    and p': "p' = p\<lparr>cache := c1\<rparr>"
    unfolding saveBackendResponse_eq by (auto split: sum.splits)
  have g: "GetBytes (cache p') key = Inr (SetResponse ?r en)"
    using GetBytes_SetBytes[OF c1] p' by simp
  have "GetResponse (SetResponse ?r en) (Path ?r) = Some ?r"
    by (rule GetResponse_SetResponse)
  then have "GetResponse (SetResponse ?r en) path = Some ?r" by simp
  with g show "\<exists>e'. GetBytes (cache p') key = Inr e' \<and> GetResponse e' path = Some ?r"
    by blast
qed

theorem codec_round_trip_witness:
  "SetBytes emptyCache ''test'' [sampleResponse] = Inr sampleStored \<and>
   GetBytes sampleStored ''test'' = Inr [sampleResponse] \<and>
   saveBackendResponse (proxyOf [okFetcher]) ''test'' ''/test/'' sampleReply []
     = (None, (proxyOf [okFetcher])\<lparr>cache := sampleStored\<rparr>) \<and>
   (\<exists>e'. GetBytes (cache ((proxyOf [okFetcher])\<lparr>cache := sampleStored\<rparr>)) ''test'' = Inr e' \<and>
         GetResponse e' ''/test/'' = Some sampleResponse)"
proof -
  have r: "\<lparr>Path = ''/test/'', Body = body sampleReply,
     Headers = map (\<lambda>(k, v). \<lparr>Key = k, Value = v\<rparr>) (respHeader sampleReply)\<rparr> = sampleResponse"
    by (simp add: sampleReply_def sampleResponse_def)
  from codec_round_trip[of "[sampleResponse]" emptyCache "''test''" sampleStored
      "proxyOf [okFetcher]" "''/test/''" sampleReply "[]"
      "(proxyOf [okFetcher])\<lparr>cache := sampleStored\<rparr>"]
  show ?thesis
    using sample_SetBytes sample_save unfolding r by blast
qed

section \<open>The request path\<close>

lemma getBackend_keeps:
  "getBackend p = (b, p1) \<Longrightarrow>
     cache p1 = cache p \<and> backends p1 = backends p \<and> nocacheRules p1 = nocacheRules p \<and>
     headersRules p1 = headersRules p \<and> totalBackends p1 = totalBackends p"
  by (auto simp: getBackend_def Let_def split: if_splits)

lemma fetchFromBackend_None:
  "(fetchFromBackend H key path pt w = None) = (fst (getBackend (proxy w)) = None)"
  unfolding fetchFromBackend_def Let_def
  by (auto split: prod.splits option.splits sum.splits if_splits)

lemma fetchFromBackend_trace:
  assumes "fetchFromBackend H key path pt w = Some (e, w')"
  shows "\<exists>i b. fst (getBackend (proxy w)) = Some (i, b) \<and>
     (trace w' = trace w @ [Forwarded i] \<or> trace w' = trace w @ [Forwarded i, EvalOnResponse])"
  using assms unfolding fetchFromBackend_def Let_def
  by (auto split: prod.splits option.splits sum.splits if_splits)

lemma StatusCode_SetStatusCode:
  "StatusCode (SetBody b (SetStatusCode (StatusCode r) r')) = StatusCode r"
  by (simp add: StatusCode_def SetStatusCode_def SetBody_def StatusOK_def)

text \<open>The value of \<open>fetchFromBackend\<close> once the backend has answered.\<close>

lemma fetchFromBackend_replied:
  assumes gb: "getBackend (proxy w) = (Some (i, backend), p1)"
    and do: "httpClient_do backend (backendRequest path pt (ctx w)) (hcResp pt) = (None, req2, resp1)"
    and ph: "processHeaderRules H req2 resp1 (headersRules p1) = Inr hs"
  shows "fetchFromBackend H key path pt w =
    (let c1 = (ctx w)\<lparr>Request := copyReqHeaderTo req2 (Request (ctx w)),
                     Response := (Response (ctx w))\<lparr>respHeader := hs\<rparr>\<rparr>;
         w2 = w\<lparr>proxy := p1, trace := trace w @ [Forwarded i], ctx := c1\<rparr>
     in if Peek headerLocation hs \<noteq> [] then Some (None, w2)
        else (case checkIfNoCache H req2 (resp1\<lparr>respHeader := hs\<rparr>) (nocacheRules p1) of
                Inl e \<Rightarrow> Some (Some e, w2\<lparr>trace := trace w @ [Forwarded i, EvalOnResponse]\<rparr>)
              | Inr noCache \<Rightarrow>
                  (let c2 = c1\<lparr>Response := (Response (ctx w))\<lparr>respHeader := hs,
                                      statusCode := StatusCode resp1, body := body resp1\<rparr>\<rparr>;
                       w4 = w2\<lparr>trace := trace w @ [Forwarded i, EvalOnResponse], ctx := c2\<rparr>
                   in if noCache \<or> StatusCode resp1 \<noteq> StatusOK then Some (None, w4)
                      else (case SetBytes (cache (proxy w)) key
                                   (SetResponse \<lparr>Path = path, Body = body resp1,
                                      Headers = map (\<lambda>(k, v). \<lparr>Key = k, Value = v\<rparr>) hs\<rparr> (entry pt)) of
                              Inl m \<Rightarrow>
                                Some (Some (''Could not save response in cache for key '' @ [CHR 0x27] @ key
                                        @ [CHR 0x27] @ '': '' @ m), w4)
                            | Inr c \<Rightarrow> Some (None, w4\<lparr>proxy := p1\<lparr>cache := c\<rparr>\<rparr>)))))"
proof -
  have k: "cache p1 = cache (proxy w)" using getBackend_keeps[OF gb] by simp
  have sc: "StatusCode (resp1\<lparr>respHeader := hs\<rparr>) = StatusCode resp1"
    by (simp add: StatusCode_def)
  have sc2: "\<And>r b. StatusCode (r\<lparr>respHeader := hs, statusCode := StatusCode resp1, body := b\<rparr>)
      = StatusCode resp1"
    by (simp add: StatusCode_def StatusOK_def)
  show ?thesis
    using gb do ph k sc sc2
    unfolding fetchFromBackend_def backendRequest_def saveBackendResponse_eq
    by (simp add: Let_def copyRespHeaderTo_def SetBody_def SetStatusCode_def
        split: sum.splits)
qed


lemma fetchFromBackend_do_error:
  assumes gb: "getBackend (proxy w) = (Some (i, backend), p1)"
    and do: "httpClient_do backend (backendRequest path pt (ctx w)) (hcResp pt) = (Some m, req2, resp1)"
  shows "fetchFromBackend H key path pt w =
    Some (Some (''Could not fetch response from backend: '' @ m),
          w\<lparr>proxy := p1, trace := trace w @ [Forwarded i]\<rparr>)"
  using gb do unfolding fetchFromBackend_def backendRequest_def
  by (simp add: Let_def)

lemma fetchFromBackend_rules_error:
  assumes gb: "getBackend (proxy w) = (Some (i, backend), p1)"
    and do: "httpClient_do backend (backendRequest path pt (ctx w)) (hcResp pt) = (None, req2, resp1)"
    and ph: "processHeaderRules H req2 resp1 (headersRules p1) = Inl m"
  shows "fetchFromBackend H key path pt w =
    Some (Some (''Could not process headers rules: '' @ m),
          w\<lparr>proxy := p1, trace := trace w @ [Forwarded i]\<rparr>)"
  using gb do ph unfolding fetchFromBackend_def backendRequest_def
  by (simp add: Let_def)

text \<open>What \<open>fetchFromBackend\<close> does to the cache, by the fate of the reply.\<close>

lemma fetchFromBackend_cache:
  assumes gb: "getBackend (proxy w) = (Some (i, backend), p1)"
    and do: "httpClient_do backend (backendRequest path pt (ctx w)) (hcResp pt) = (err, req2, resp1)"
    and res: "fetchFromBackend H key path pt w = Some (e, w')"
  shows "(err = None \<and> admitted H p1 req2 resp1 \<longrightarrow>
            (case SetBytes (cache (proxy w)) key
                    (SetResponse (cachedReply H p1 req2 resp1 path) (entry pt)) of
               Inr c \<Rightarrow> e = None \<and> cache (proxy w') = c \<and> StatusCode (Response (ctx w')) = StatusOK
             | Inl m \<Rightarrow> e \<noteq> None \<and> cache (proxy w') = cache (proxy w))) \<and>
         (\<not> (err = None \<and> admitted H p1 req2 resp1) \<longrightarrow> cache (proxy w') = cache (proxy w))"
proof -
  have k: "cache p1 = cache (proxy w)" using getBackend_keeps[OF gb] by simp
  show ?thesis
  proof (cases err)
    case (Some m)
    then show ?thesis
      using fetchFromBackend_do_error[OF gb do[unfolded Some], of H key] res k by auto
  next
    case None
    note do' = do[unfolded None]
    show ?thesis
    proof (cases "processHeaderRules H req2 resp1 (headersRules p1)")
      case (Inl m)
      then show ?thesis
        using fetchFromBackend_rules_error[OF gb do' Inl, of key] res k
        by (auto simp: admitted_def)
    next
      case (Inr hs)
      have sc: "\<And>r b. StatusCode (r\<lparr>respHeader := hs, statusCode := StatusCode resp1, body := b\<rparr>)
          = StatusCode resp1"
        by (simp add: StatusCode_def StatusOK_def)
      show ?thesis
        using fetchFromBackend_replied[OF gb do' Inr, of key] res k None Inr sc
        by (auto simp: admitted_def cachedReply_def Let_def split: if_splits sum.splits)
    qed
  qed
qed

lemma sample_getBackend:
  "getBackend (proxy (worldOf (proxyOf [b]) req)) = (Some (0, b), proxyOf [b])"
  by (simp add: worldOf_def proxyOf_def getBackend_def backendAt_def)

lemma sample_do:
  "httpClient_do (replyWith r) (backendRequest ''/test/'' acquireTools (ctx (worldOf p sampleRequest)))
       (hcResp acquireTools)
     = (None, sampleRequest\<lparr>reqHeader := [(proxyReqHeaderKey, proxyReqHeaderValue)]\<rparr>, r)"
  by (simp add: httpClient_do_def replyWith_def backendRequest_def acquireTools_def worldOf_def
      newCtx_def sampleRequest_def emptyRequest_def setRequestURIBytes_def setMethodBytes_def
      cloneHeaders_def)

text \<open>
  Claim C3, as amended. Once a backend has been chosen and asked, the reply is
  written into the cache under the cache key exactly when it is admitted (the
  backend call and the header rules succeeded, the headers carry no \<open>Location\<close>
  value, the no-cache rules were evaluated without error and none fired, the status
  is exactly 200) and the store accepts the entry; the entry written is the tool
  bundle's entry with the new response set. In every other case the cache is left as
  it was.
\<close>

theorem fetchFromBackend_admission:
  assumes "getBackend (proxy w) = (Some (i, backend), p1)"
    and "httpClient_do backend (backendRequest path pt (ctx w)) (hcResp pt) = (err, req2, resp1)"
    and "fetchFromBackend H key path pt w = Some (e, w')"
  shows "(err = None \<and> admitted H p1 req2 resp1 \<longrightarrow>
            (case SetBytes (cache (proxy w)) key
                    (SetResponse (cachedReply H p1 req2 resp1 path) (entry pt)) of
               Inr c \<Rightarrow> e = None \<and> cache (proxy w') = c
             | Inl m \<Rightarrow> e \<noteq> None \<and> cache (proxy w') = cache (proxy w))) \<and>
         (\<not> (err = None \<and> admitted H p1 req2 resp1) \<longrightarrow> cache (proxy w') = cache (proxy w))"
  using fetchFromBackend_cache[OF assms] by (auto split: sum.splits)

theorem fetchFromBackend_admission_witness:
  "\<exists>e w'.
     getBackend (proxy (worldOf (proxyOf [replyWith sampleReply]) sampleRequest))
       = (Some (0, replyWith sampleReply), proxyOf [replyWith sampleReply]) \<and>
     httpClient_do (replyWith sampleReply)
         (backendRequest ''/test/'' acquireTools (ctx (worldOf (proxyOf [replyWith sampleReply]) sampleRequest)))
         (hcResp acquireTools)
       = (None, sampleRequest\<lparr>reqHeader := [(proxyReqHeaderKey, proxyReqHeaderValue)]\<rparr>, sampleReply) \<and>
     fetchFromBackend plainHelpers ''test'' ''/test/'' acquireTools
         (worldOf (proxyOf [replyWith sampleReply]) sampleRequest) = Some (e, w') \<and>
     admitted plainHelpers (proxyOf [replyWith sampleReply])
         (sampleRequest\<lparr>reqHeader := [(proxyReqHeaderKey, proxyReqHeaderValue)]\<rparr>) sampleReply \<and>
     e = None \<and> cache (proxy w') = sampleStored"
proof -
  let ?w = "worldOf (proxyOf [replyWith sampleReply]) sampleRequest"
  let ?req2 = "sampleRequest\<lparr>reqHeader := [(proxyReqHeaderKey, proxyReqHeaderValue)]\<rparr>"
  have gb: "getBackend (proxy ?w) = (Some (0, replyWith sampleReply), proxyOf [replyWith sampleReply])"
    by (rule sample_getBackend)
  have do: "httpClient_do (replyWith sampleReply) (backendRequest ''/test/'' acquireTools (ctx ?w))
      (hcResp acquireTools) = (None, ?req2, sampleReply)"
    by (rule sample_do)
  have "fetchFromBackend plainHelpers ''test'' ''/test/'' acquireTools ?w \<noteq> None"
    using gb by (simp add: fetchFromBackend_None)
  then obtain e w' where res: "fetchFromBackend plainHelpers ''test'' ''/test/'' acquireTools ?w = Some (e, w')"
    by auto
  have ad: "admitted plainHelpers (proxyOf [replyWith sampleReply]) ?req2 sampleReply"
    by (simp add: admitted_def plainHelpers_def sampleReply_def Peek_def headerLocation_def
        StatusCode_def StatusOK_def)
  have cr: "cachedReply plainHelpers (proxyOf [replyWith sampleReply]) ?req2 sampleReply ''/test/''
      = sampleResponse"
    by (simp add: cachedReply_def plainHelpers_def sampleReply_def sampleResponse_def)
  have sb: "SetBytes (cache (proxy ?w)) ''test''
      (SetResponse (cachedReply plainHelpers (proxyOf [replyWith sampleReply]) ?req2 sampleReply ''/test/'')
         (entry acquireTools)) = Inr sampleStored"
    unfolding cr using sample_SetBytes by (simp add: worldOf_def proxyOf_def acquireTools_def)
  from fetchFromBackend_admission[OF gb do res] ad sb
  have "e = None \<and> cache (proxy w') = sampleStored" by simp
  with gb do res ad show ?thesis by blast
qed

text \<open>
  The claim as stated fails for a reply with status 200 and a \<open>Location\<close> header when
  no no-cache rule fires: nothing is stored.
\<close>

theorem fetchFromBackend_admission_counterexample:
  "StatusCode redirectReply = StatusOK \<and>
   checkIfNoCache plainHelpers sampleRequest redirectReply [] = Inr False \<and>
   fetchOutcome plainHelpers ''test'' ''/test/'' acquireTools
     (worldOf (proxyOf [replyWith redirectReply]) sampleRequest) = Some (None, None, [Forwarded 0])"
  by code_simp

text \<open>
  Claim C4, as amended. When the backend has answered, the header rules have run
  without error and the headers they leave carry a non-empty \<open>Location\<close> value,
  \<open>fetchFromBackend\<close> returns without error, so the handler ends the request as it
  stands: the cache is as it was, the no-cache rules have not been evaluated on the
  response (the only new event is the backend call), the outbound response has the
  reply's headers, and its body is the one it had before (the reply's body is not
  copied on this path).
\<close>

theorem fetchFromBackend_redirect:
  assumes "getBackend (proxy w) = (Some (i, backend), p1)"
    and "httpClient_do backend (backendRequest path pt (ctx w)) (hcResp pt) = (None, req2, resp1)"
    and "processHeaderRules H req2 resp1 (headersRules p1) = Inr hs"
    and "Peek headerLocation hs \<noteq> []"
  shows "\<exists>w'. fetchFromBackend H key path pt w = Some (None, w') \<and>
           handler_fetch H key path pt w = Some w' \<and>
           cache (proxy w') = cache (proxy w) \<and>
           trace w' = trace w @ [Forwarded i] \<and>
           respHeader (Response (ctx w')) = hs \<and>
           body (Response (ctx w')) = body (Response (ctx w))"
proof -
  have k: "cache p1 = cache (proxy w)" using getBackend_keeps[OF assms(1)] by simp
  let ?w' = "w\<lparr>proxy := p1, trace := trace w @ [Forwarded i],
     ctx := (ctx w)\<lparr>Request := copyReqHeaderTo req2 (Request (ctx w)),
                    Response := (Response (ctx w))\<lparr>respHeader := hs\<rparr>\<rparr>\<rparr>"
  have f: "fetchFromBackend H key path pt w = Some (None, ?w')"
    using fetchFromBackend_replied[OF assms(1,2,3), of key] assms(4) by (simp add: Let_def)
  have h: "handler_fetch H key path pt w = Some ?w'"
    unfolding handler_fetch_def f by simp
  show ?thesis using f h k by simp
qed

theorem fetchFromBackend_redirect_witness:
  "getBackend (proxy (worldOf (proxyOf [replyWith redirectReply]) sampleRequest))
       = (Some (0, replyWith redirectReply), proxyOf [replyWith redirectReply]) \<and>
   httpClient_do (replyWith redirectReply)
         (backendRequest ''/test/'' acquireTools (ctx (worldOf (proxyOf [replyWith redirectReply]) sampleRequest)))
         (hcResp acquireTools)
       = (None, sampleRequest\<lparr>reqHeader := [(proxyReqHeaderKey, proxyReqHeaderValue)]\<rparr>, redirectReply) \<and>
   processHeaderRules plainHelpers (sampleRequest\<lparr>reqHeader := [(proxyReqHeaderKey, proxyReqHeaderValue)]\<rparr>)
       redirectReply (headersRules (proxyOf [replyWith redirectReply]))
       = Inr [(''Location'', ''http://www.kratgo.com'')] \<and>
   Peek headerLocation [(''Location'', ''http://www.kratgo.com'')] \<noteq> [] \<and>
   (\<exists>w'. fetchFromBackend plainHelpers ''test'' ''/test/'' acquireTools
            (worldOf (proxyOf [replyWith redirectReply]) sampleRequest) = Some (None, w') \<and>
         cache (proxy w') = emptyCache \<and> trace w' = [Forwarded 0] \<and>
         respHeader (Response (ctx w')) = [(''Location'', ''http://www.kratgo.com'')] \<and>
         body (Response (ctx w')) = [])"
proof -
  let ?w = "worldOf (proxyOf [replyWith redirectReply]) sampleRequest"
  let ?req2 = "sampleRequest\<lparr>reqHeader := [(proxyReqHeaderKey, proxyReqHeaderValue)]\<rparr>"
  have gb: "getBackend (proxy ?w) = (Some (0, replyWith redirectReply), proxyOf [replyWith redirectReply])"
    by (rule sample_getBackend)
  have do: "httpClient_do (replyWith redirectReply) (backendRequest ''/test/'' acquireTools (ctx ?w))
      (hcResp acquireTools) = (None, ?req2, redirectReply)"
    by (rule sample_do)
  have ph: "processHeaderRules plainHelpers ?req2 redirectReply (headersRules (proxyOf [replyWith redirectReply]))
      = Inr [(''Location'', ''http://www.kratgo.com'')]"
    by (simp add: plainHelpers_def redirectReply_def)
  have loc: "Peek headerLocation [(''Location'', ''http://www.kratgo.com'')] \<noteq> []"
    by (simp add: Peek_def headerLocation_def)
  have w0: "cache (proxy ?w) = emptyCache" "trace ?w = []" "body (Response (ctx ?w)) = []"
    by (simp_all add: worldOf_def proxyOf_def newCtx_def emptyResponse_def)
  from fetchFromBackend_redirect[OF gb do ph loc, of "''test''"] w0
  have "\<exists>w'. fetchFromBackend plainHelpers ''test'' ''/test/'' acquireTools ?w = Some (None, w') \<and>
         cache (proxy w') = emptyCache \<and> trace w' = [Forwarded 0] \<and>
         respHeader (Response (ctx w')) = [(''Location'', ''http://www.kratgo.com'')] \<and>
         body (Response (ctx w')) = []"
    by auto
  with gb do ph loc show ?thesis by blast
qed

text \<open>
  The claim as stated fails for a reply whose \<open>Location\<close> header has an empty value:
  the no-cache rules are evaluated on the response and the reply is stored.
\<close>

theorem fetchFromBackend_redirect_counterexample:
  "map_of (respHeader emptyLocationReply) headerLocation = Some [] \<and>
   fetchOutcome plainHelpers ''test'' ''/test/'' acquireTools
     (worldOf (proxyOf [replyWith emptyLocationReply]) sampleRequest)
   = Some (None,
       Some (Marshal [\<lparr>Path = ''/test/'', Body = ''Test Body'',
                       Headers = [\<lparr>Key = ''Location'', Value = []\<rparr>]\<rparr>]),
       [Forwarded 0, EvalOnResponse])"
  by code_simp

subsection \<open>The paths of \<open>handler\<close>\<close>

lemma cacheLookup_GetBytes:
  "cacheLookup c key path = (case GetBytes c key of Inl e \<Rightarrow> None | Inr en \<Rightarrow> GetResponse en path)"
  by (simp add: cacheLookup_def GetBytes_def GetResponse_def split: option.splits sum.splits)

lemma handler_hit:
  assumes "checkIfNoCache H (Request (ctx w)) (Response (ctx w)) (nocacheRules (proxy w)) = Inr False"
    and "cacheLookup (cache (proxy w)) (reqHost (Request (ctx w))) (reqPathOriginal (Request (ctx w))) = Some r"
  shows "handler H w = Some (w\<lparr>trace := trace w @ [EvalOnRequest], ctx := serveCached r (ctx w)\<rparr>)"
  using assms unfolding handler_def cacheLookup_GetBytes
  by (auto simp: Let_def split: sum.splits option.splits)

lemma handler_not_hit:
  assumes "checkIfNoCache H (Request (ctx w)) (Response (ctx w)) (nocacheRules (proxy w)) \<noteq> Inr False
     \<or> cacheLookup (cache (proxy w)) (reqHost (Request (ctx w))) (reqPathOriginal (Request (ctx w))) = None"
  shows "\<exists>pt c0. handler H w =
     handler_fetch H (reqHost (Request (ctx w))) (reqPathOriginal (Request (ctx w))) pt
       (w\<lparr>trace := trace w @ [EvalOnRequest], ctx := c0\<rparr>)"
proof (cases "checkIfNoCache H (Request (ctx w)) (Response (ctx w)) (nocacheRules (proxy w))")
  case (Inl e)
  then show ?thesis unfolding handler_def by (auto simp: Let_def)
next
  case (Inr nc)
  show ?thesis
  proof (cases nc)
    case True
    have "handler H w = handler_fetch H (reqHost (Request (ctx w))) (reqPathOriginal (Request (ctx w)))
        acquireTools (w\<lparr>trace := trace w @ [EvalOnRequest]\<rparr>)"
      using Inr True unfolding handler_def by (simp add: Let_def)
    then show ?thesis
      by (intro exI[of _ acquireTools] exI[of _ "ctx w"]) simp
  next
    case False
    with assms Inr have miss: "cacheLookup (cache (proxy w)) (reqHost (Request (ctx w)))
        (reqPathOriginal (Request (ctx w))) = None" by simp
    show ?thesis
    proof (cases "GetBytes (cache (proxy w)) (reqHost (Request (ctx w)))")
      case (Inl m)
      then show ?thesis using Inr False unfolding handler_def by (auto simp: Let_def)
    next
      case (Inr en)
      with miss have "GetResponse en (reqPathOriginal (Request (ctx w))) = None"
        by (simp add: cacheLookup_GetBytes)
      then have "handler H w = handler_fetch H (reqHost (Request (ctx w)))
          (reqPathOriginal (Request (ctx w))) (acquireTools\<lparr>entry := en\<rparr>)
          (w\<lparr>trace := trace w @ [EvalOnRequest]\<rparr>)"
        using \<open>checkIfNoCache H (Request (ctx w)) (Response (ctx w)) (nocacheRules (proxy w)) = Inr nc\<close>
          False Inr unfolding handler_def
        by (simp add: Let_def)
      then show ?thesis
        by (intro exI[of _ "acquireTools\<lparr>entry := en\<rparr>"] exI[of _ "ctx w"]) simp
    qed
  qed
qed

lemma handler_fetch_None:
  "(handler_fetch H key path pt w = None) = (fst (getBackend (proxy w)) = None)"
  using fetchFromBackend_None[of H key path pt w]
  by (auto simp: handler_fetch_def split: option.splits prod.splits)

lemma handler_fetch_trace:
  assumes "handler_fetch H key path pt w = Some w'"
  shows "\<exists>i b. fst (getBackend (proxy w)) = Some (i, b) \<and>
     (trace w' = trace w @ [Forwarded i] \<or> trace w' = trace w @ [Forwarded i, EvalOnResponse])"
proof -
  from assms obtain e w1 where f: "fetchFromBackend H key path pt w = Some (e, w1)"
    and t: "trace w' = trace w1"
    by (auto simp: handler_fetch_def split: option.splits prod.splits)
  from fetchFromBackend_trace[OF f] t show ?thesis by simp
qed

text \<open>
  After a failed evaluation of the no-cache rules on the request, the handler writes
  the 500 response and goes on to the backend with an empty tool bundle.
\<close>

lemma handler_after_eval_error:
  assumes "checkIfNoCache H (Request (ctx w)) (Response (ctx w)) (nocacheRules (proxy w)) = Inl e"
  shows "handler H w =
     handler_fetch H (reqHost (Request (ctx w))) (reqPathOriginal (Request (ctx w))) acquireTools
       (w\<lparr>trace := trace w @ [EvalOnRequest],
          ctx := ctxError e StatusInternalServerError (ctx w)\<rparr>)"
  using assms unfolding handler_def by (simp add: Let_def)

text \<open>
  Claim C6. For a request on which the evaluation of the no-cache rules ended with
  no rule fired: if the cache has an entry for the host and the entry holds a response
  whose path is byte-equal to the original path of the request, the handler serves
  that response and calls no backend; otherwise (no entry for the host, an entry
  without that path, or a blob that does not decode) the request is forwarded to the
  backend that \<open>getBackend\<close> selects. So the request is served without a backend call
  exactly when the entry with that path exists.
\<close>

theorem handler_cache_hit_iff:
  assumes "checkIfNoCache H (Request (ctx w)) (Response (ctx w)) (nocacheRules (proxy w)) = Inr False"
  shows "(\<forall>r. cacheLookup (cache (proxy w)) (reqHost (Request (ctx w)))
               (reqPathOriginal (Request (ctx w))) = Some r \<longrightarrow>
            handler H w = Some (w\<lparr>trace := trace w @ [EvalOnRequest], ctx := serveCached r (ctx w)\<rparr>)) \<and>
         (cacheLookup (cache (proxy w)) (reqHost (Request (ctx w)))
               (reqPathOriginal (Request (ctx w))) = None \<longrightarrow>
            (case handler H w of
               None \<Rightarrow> fst (getBackend (proxy w)) = None
             | Some w' \<Rightarrow> \<exists>i b. fst (getBackend (proxy w)) = Some (i, b) \<and> Forwarded i \<in> set (trace w'))) \<and>
         ((\<exists>w'. handler H w = Some w' \<and> trace w' = trace w @ [EvalOnRequest]) =
          (cacheLookup (cache (proxy w)) (reqHost (Request (ctx w)))
               (reqPathOriginal (Request (ctx w))) \<noteq> None))"
proof -
  let ?look = "cacheLookup (cache (proxy w)) (reqHost (Request (ctx w))) (reqPathOriginal (Request (ctx w)))"
  have hit: "\<And>r. ?look = Some r \<Longrightarrow>
      handler H w = Some (w\<lparr>trace := trace w @ [EvalOnRequest], ctx := serveCached r (ctx w)\<rparr>)"
    using handler_hit[OF assms] by simp
  have miss: "?look = None \<Longrightarrow>
      (case handler H w of
         None \<Rightarrow> fst (getBackend (proxy w)) = None
       | Some w' \<Rightarrow> \<exists>i b. fst (getBackend (proxy w)) = Some (i, b) \<and>
           (trace w' = trace w @ [EvalOnRequest, Forwarded i] \<or>
            trace w' = trace w @ [EvalOnRequest, Forwarded i, EvalOnResponse]))"
  proof -
    assume m: "?look = None"
    from handler_not_hit[of H w] m obtain pt c0 where
      h: "handler H w = handler_fetch H (reqHost (Request (ctx w))) (reqPathOriginal (Request (ctx w))) pt
            (w\<lparr>trace := trace w @ [EvalOnRequest], ctx := c0\<rparr>)"
      by blast
    show ?thesis
    proof (cases "handler H w")
      case None
      then show ?thesis using h handler_fetch_None[of H _ _ pt "w\<lparr>trace := trace w @ [EvalOnRequest], ctx := c0\<rparr>"]
        by simp
    next
      case (Some w')
      with h have "handler_fetch H (reqHost (Request (ctx w))) (reqPathOriginal (Request (ctx w))) pt
            (w\<lparr>trace := trace w @ [EvalOnRequest], ctx := c0\<rparr>) = Some w'" by simp
      from handler_fetch_trace[OF this] Some show ?thesis by simp
    qed
  qed
  have c1: "\<forall>r. ?look = Some r \<longrightarrow>
      handler H w = Some (w\<lparr>trace := trace w @ [EvalOnRequest], ctx := serveCached r (ctx w)\<rparr>)"
    using hit by blast
  have c2: "?look = None \<longrightarrow>
      (case handler H w of
         None \<Rightarrow> fst (getBackend (proxy w)) = None
       | Some w' \<Rightarrow> \<exists>i b. fst (getBackend (proxy w)) = Some (i, b) \<and> Forwarded i \<in> set (trace w'))"
    using miss by (auto split: option.splits)
  have c3: "(\<exists>w'. handler H w = Some w' \<and> trace w' = trace w @ [EvalOnRequest]) = (?look \<noteq> None)"
  proof (cases ?look)
    case None
    then show ?thesis using miss by (auto split: option.splits)
  next
    case (Some r)
    then show ?thesis using hit[OF Some] by simp
  qed
  from c1 c2 c3 show ?thesis by blast
qed

lemma storedWorld_fields:
  "cache (proxy (storedWorld req)) = sampleStored"
  "Request (ctx (storedWorld req)) = req"
  "Response (ctx (storedWorld req)) = emptyResponse"
  "trace (storedWorld req) = []"
  "getBackend (proxy (storedWorld req))
     = (Some (0, replyWith sampleReply), (proxyOf [replyWith sampleReply])\<lparr>cache := sampleStored\<rparr>)"
  by (simp_all add: storedWorld_def worldOf_def newCtx_def proxyOf_def getBackend_def backendAt_def)

lemma sampleStored_lookup:
  "cacheLookup sampleStored ''test'' ''/test/'' = Some sampleResponse"
  "cacheLookup sampleStored ''test'' ''/other/'' = None"
  by (simp_all add: cacheLookup_def sampleStored_def Unmarshal_Marshal sampleResponse_def)

theorem handler_cache_hit_iff_witness:
  "checkIfNoCache plainHelpers (Request (ctx (storedWorld sampleRequest)))
       (Response (ctx (storedWorld sampleRequest))) (nocacheRules (proxy (storedWorld sampleRequest)))
     = Inr False \<and>
   cacheLookup (cache (proxy (storedWorld sampleRequest))) ''test'' ''/test/'' = Some sampleResponse \<and>
   handler plainHelpers (storedWorld sampleRequest)
     = Some ((storedWorld sampleRequest)\<lparr>trace := [EvalOnRequest],
               ctx := serveCached sampleResponse (ctx (storedWorld sampleRequest))\<rparr>) \<and>
   checkIfNoCache plainHelpers (Request (ctx (storedWorld (sampleRequest\<lparr>reqPathOriginal := ''/other/''\<rparr>))))
       (Response (ctx (storedWorld (sampleRequest\<lparr>reqPathOriginal := ''/other/''\<rparr>))))
       (nocacheRules (proxy (storedWorld (sampleRequest\<lparr>reqPathOriginal := ''/other/''\<rparr>))))
     = Inr False \<and>
   cacheLookup (cache (proxy (storedWorld (sampleRequest\<lparr>reqPathOriginal := ''/other/''\<rparr>))))
       ''test'' ''/other/'' = None \<and>
   (\<exists>w'. handler plainHelpers (storedWorld (sampleRequest\<lparr>reqPathOriginal := ''/other/''\<rparr>)) = Some w' \<and>
         Forwarded 0 \<in> set (trace w'))"
proof -
  let ?hit = "storedWorld sampleRequest"
  let ?miss = "storedWorld (sampleRequest\<lparr>reqPathOriginal := ''/other/''\<rparr>)"
  have n1: "checkIfNoCache plainHelpers (Request (ctx ?hit)) (Response (ctx ?hit)) (nocacheRules (proxy ?hit))
      = Inr False"
    by (simp add: plainHelpers_def)
  have n2: "checkIfNoCache plainHelpers (Request (ctx ?miss)) (Response (ctx ?miss)) (nocacheRules (proxy ?miss))
      = Inr False"
    by (simp add: plainHelpers_def)
  have rq: "reqHost (Request (ctx ?hit)) = ''test''" "reqPathOriginal (Request (ctx ?hit)) = ''/test/''"
    "reqHost (Request (ctx ?miss)) = ''test''" "reqPathOriginal (Request (ctx ?miss)) = ''/other/''"
    by (simp_all add: storedWorld_fields sampleRequest_def)
  have l1: "cacheLookup (cache (proxy ?hit)) ''test'' ''/test/'' = Some sampleResponse"
    by (simp add: storedWorld_fields sampleStored_lookup)
  have l2: "cacheLookup (cache (proxy ?miss)) ''test'' ''/other/'' = None"
    by (simp add: storedWorld_fields sampleStored_lookup)
  from handler_cache_hit_iff[OF n1] l1
  have h1: "handler plainHelpers ?hit
     = Some (?hit\<lparr>trace := [EvalOnRequest], ctx := serveCached sampleResponse (ctx ?hit)\<rparr>)"
    unfolding rq by (simp add: storedWorld_fields)
  from handler_cache_hit_iff[OF n2] l2
  have "case handler plainHelpers ?miss of
          None \<Rightarrow> fst (getBackend (proxy ?miss)) = None
        | Some w' \<Rightarrow> \<exists>i b. fst (getBackend (proxy ?miss)) = Some (i, b) \<and> Forwarded i \<in> set (trace w')"
    unfolding rq by blast
  then have h2: "\<exists>w'. handler plainHelpers ?miss = Some w' \<and> Forwarded 0 \<in> set (trace w')"
    by (cases "handler plainHelpers ?miss") (auto simp: storedWorld_fields)
  from n1 l1 h1 n2 l2 h2 show ?thesis by blast
qed

text \<open>
  Claim C10. A cache response has a path, a body and headers and nothing else. On a
  cache hit the handler writes the cached body and headers into the outbound
  response and leaves its status as it was, which on a fresh context reads as 200.
  And a request that changes the cache ends with status 200: \<open>fetchFromBackend\<close>
  changes the cache only for a backend reply whose status is 200.
\<close>

theorem cache_hit_status_200:
  "(checkIfNoCache H (Request (ctx w)) (Response (ctx w)) (nocacheRules (proxy w)) = Inr False \<and>
    cacheLookup (cache (proxy w)) (reqHost (Request (ctx w)))
       (reqPathOriginal (Request (ctx w))) = Some r \<longrightarrow>
      (\<exists>w'. handler H w = Some w' \<and>
            Response (ctx w') =
              (Response (ctx w))\<lparr>body := Body r,
                 respHeader := fold (\<lambda>h. SetCanonical (Key h) (Value h)) (Headers r)
                                 (respHeader (Response (ctx w)))\<rparr> \<and>
            statusCode (Response (ctx w')) = statusCode (Response (ctx w)) \<and>
            (statusCode (Response (ctx w)) = 0 \<longrightarrow> StatusCode (Response (ctx w')) = 200))) \<and>
   (handler H w = Some w1 \<and> cache (proxy w1) \<noteq> cache (proxy w) \<longrightarrow>
      StatusCode (Response (ctx w1)) = 200) \<and>
   (getBackend (proxy w) = (Some (i, backend), p1) \<and>
    httpClient_do backend (backendRequest path pt (ctx w)) (hcResp pt) = (err, req2, resp1) \<and>
    fetchFromBackend H key path pt w = Some (e, w2) \<and> cache (proxy w2) \<noteq> cache (proxy w) \<longrightarrow>
      StatusCode resp1 = 200)"
proof (intro conjI impI)
  assume a: "checkIfNoCache H (Request (ctx w)) (Response (ctx w)) (nocacheRules (proxy w)) = Inr False \<and>
    cacheLookup (cache (proxy w)) (reqHost (Request (ctx w))) (reqPathOriginal (Request (ctx w))) = Some r"
  then have h: "handler H w = Some (w\<lparr>trace := trace w @ [EvalOnRequest], ctx := serveCached r (ctx w)\<rparr>)"
    using handler_hit by blast
  show "\<exists>w'. handler H w = Some w' \<and>
            Response (ctx w') =
              (Response (ctx w))\<lparr>body := Body r,
                 respHeader := fold (\<lambda>h. SetCanonical (Key h) (Value h)) (Headers r)
                                 (respHeader (Response (ctx w)))\<rparr> \<and>
            statusCode (Response (ctx w')) = statusCode (Response (ctx w)) \<and>
            (statusCode (Response (ctx w)) = 0 \<longrightarrow> StatusCode (Response (ctx w')) = 200)"
    unfolding h by (simp add: serveCached_def SetBody_def StatusCode_def StatusOK_def Let_def)
next
  assume a: "getBackend (proxy w) = (Some (i, backend), p1) \<and>
    httpClient_do backend (backendRequest path pt (ctx w)) (hcResp pt) = (err, req2, resp1) \<and>
    fetchFromBackend H key path pt w = Some (e, w2) \<and> cache (proxy w2) \<noteq> cache (proxy w)"
  then have gb: "getBackend (proxy w) = (Some (i, backend), p1)"
    and do: "httpClient_do backend (backendRequest path pt (ctx w)) (hcResp pt) = (err, req2, resp1)"
    and res: "fetchFromBackend H key path pt w = Some (e, w2)"
    and ch: "cache (proxy w2) \<noteq> cache (proxy w)" by blast+
  from fetchFromBackend_cache[OF gb do res] ch have "admitted H p1 req2 resp1" by blast
  then show "StatusCode resp1 = 200"
    by (simp add: admitted_def StatusOK_def split: sum.splits)
next
  assume a: "handler H w = Some w1 \<and> cache (proxy w1) \<noteq> cache (proxy w)"
  then have hw: "handler H w = Some w1" and ch: "cache (proxy w1) \<noteq> cache (proxy w)" by blast+
  let ?look = "cacheLookup (cache (proxy w)) (reqHost (Request (ctx w))) (reqPathOriginal (Request (ctx w)))"
  have nh: "checkIfNoCache H (Request (ctx w)) (Response (ctx w)) (nocacheRules (proxy w)) \<noteq> Inr False
     \<or> ?look = None"
  proof (rule ccontr)
    assume "\<not> ?thesis"
    then obtain r where n: "checkIfNoCache H (Request (ctx w)) (Response (ctx w)) (nocacheRules (proxy w)) = Inr False"
      and l: "?look = Some r" by auto
    from handler_hit[OF n l] hw ch show False by auto
  qed
  from handler_not_hit[OF nh] obtain pt0 c0 where
    h: "handler H w = handler_fetch H (reqHost (Request (ctx w))) (reqPathOriginal (Request (ctx w))) pt0
          (w\<lparr>trace := trace w @ [EvalOnRequest], ctx := c0\<rparr>)" by blast
  let ?w0 = "w\<lparr>trace := trace w @ [EvalOnRequest], ctx := c0\<rparr>"
  let ?k = "reqHost (Request (ctx w))"
  let ?p = "reqPathOriginal (Request (ctx w))"
  from h hw have hf: "handler_fetch H ?k ?p pt0 ?w0 = Some w1" by simp
  then obtain e0 w3 where f: "fetchFromBackend H ?k ?p pt0 ?w0 = Some (e0, w3)"
    and w1: "w1 = (case e0 of Some m \<Rightarrow> w3\<lparr>ctx := ctxError m StatusInternalServerError (ctx w3)\<rparr> | None \<Rightarrow> w3)"
    by (auto simp: handler_fetch_def split: option.splits prod.splits)
  have c13: "cache (proxy w1) = cache (proxy w3)" using w1 by (cases e0) simp_all
  from f have "fst (getBackend (proxy ?w0)) \<noteq> None"
    using fetchFromBackend_None[of H ?k ?p pt0 ?w0] by simp
  then obtain i0 b0 p0 where gb: "getBackend (proxy ?w0) = (Some (i0, b0), p0)"
    by (cases "getBackend (proxy ?w0)") auto
  obtain err0 rq0 rs0 where do: "httpClient_do b0 (backendRequest ?p pt0 (ctx ?w0)) (hcResp pt0) = (err0, rq0, rs0)"
    by (cases "httpClient_do b0 (backendRequest ?p pt0 (ctx ?w0)) (hcResp pt0)") auto
  have ch3: "cache (proxy w3) \<noteq> cache (proxy ?w0)" using ch c13 by simp
  from fetchFromBackend_cache[OF gb do f] ch3
  have "e0 = None \<and> StatusCode (Response (ctx w3)) = StatusOK"
    by (auto split: sum.splits)
  then show "StatusCode (Response (ctx w1)) = 200" using w1 by (simp add: StatusOK_def)
qed

lemma sample_handler_outcome:
  "handlerOutcome plainHelpers (worldOf (proxyOf [replyWith sampleReply]) sampleRequest)
     = Some (200, [EvalOnRequest, Forwarded 0, EvalOnResponse], Some (Marshal [sampleResponse]))"
  by code_simp

lemma sample_fetch_outcome:
  "fetchOutcome plainHelpers ''test'' ''/test/'' acquireTools
       (worldOf (proxyOf [replyWith sampleReply]) sampleRequest)
     = Some (None, Some (Marshal [sampleResponse]), [Forwarded 0, EvalOnResponse])"
  by code_simp

theorem cache_hit_status_200_witness:
  "(checkIfNoCache plainHelpers (Request (ctx (storedWorld sampleRequest)))
       (Response (ctx (storedWorld sampleRequest))) (nocacheRules (proxy (storedWorld sampleRequest)))
     = Inr False \<and>
    cacheLookup (cache (proxy (storedWorld sampleRequest))) ''test'' ''/test/'' = Some sampleResponse \<and>
    statusCode (Response (ctx (storedWorld sampleRequest))) = 0 \<and>
    (\<exists>w'. handler plainHelpers (storedWorld sampleRequest) = Some w' \<and>
          StatusCode (Response (ctx w')) = 200 \<and> body (Response (ctx w')) = ''Test Body'')) \<and>
   (\<exists>w1. handler plainHelpers (worldOf (proxyOf [replyWith sampleReply]) sampleRequest) = Some w1 \<and>
         cache (proxy w1) \<noteq> cache (proxy (worldOf (proxyOf [replyWith sampleReply]) sampleRequest)) \<and>
         StatusCode (Response (ctx w1)) = 200) \<and>
   (\<exists>e w2. getBackend (proxy (worldOf (proxyOf [replyWith sampleReply]) sampleRequest))
              = (Some (0, replyWith sampleReply), proxyOf [replyWith sampleReply]) \<and>
           httpClient_do (replyWith sampleReply)
               (backendRequest ''/test/'' acquireTools
                  (ctx (worldOf (proxyOf [replyWith sampleReply]) sampleRequest)))
               (hcResp acquireTools)
             = (None, sampleRequest\<lparr>reqHeader := [(proxyReqHeaderKey, proxyReqHeaderValue)]\<rparr>, sampleReply) \<and>
           fetchFromBackend plainHelpers ''test'' ''/test/'' acquireTools
               (worldOf (proxyOf [replyWith sampleReply]) sampleRequest) = Some (e, w2) \<and>
           cache (proxy w2) \<noteq> cache (proxy (worldOf (proxyOf [replyWith sampleReply]) sampleRequest)) \<and>
           StatusCode sampleReply = 200)"
proof -
  let ?hit = "storedWorld sampleRequest"
  let ?W = "worldOf (proxyOf [replyWith sampleReply]) sampleRequest"
  let ?req2 = "sampleRequest\<lparr>reqHeader := [(proxyReqHeaderKey, proxyReqHeaderValue)]\<rparr>"
  have n1: "checkIfNoCache plainHelpers (Request (ctx ?hit)) (Response (ctx ?hit)) (nocacheRules (proxy ?hit))
      = Inr False"
    by (simp add: plainHelpers_def)
  have rq: "reqHost (Request (ctx ?hit)) = ''test''" "reqPathOriginal (Request (ctx ?hit)) = ''/test/''"
    by (simp_all add: storedWorld_fields sampleRequest_def)
  have l1: "cacheLookup (cache (proxy ?hit)) ''test'' ''/test/'' = Some sampleResponse"
    by (simp add: storedWorld_fields sampleStored_lookup)
  have l1': "cacheLookup (cache (proxy ?hit)) (reqHost (Request (ctx ?hit)))
      (reqPathOriginal (Request (ctx ?hit))) = Some sampleResponse"
    unfolding rq by (rule l1)
  have z: "statusCode (Response (ctx ?hit)) = 0"
    by (simp add: storedWorld_fields emptyResponse_def)
  have st0: "store (cache (proxy ?W)) ''test'' = None"
    by (simp add: worldOf_def proxyOf_def emptyCache_def)
  have rh: "reqHost (Request (ctx ?W)) = ''test''"
    by (simp add: worldOf_def newCtx_def sampleRequest_def)
  note hitT = cache_hit_status_200[where H = plainHelpers and w = ?hit and r = sampleResponse,
      THEN conjunct1, THEN mp, OF conjI[OF n1 l1']]
  from hitT obtain w' where all: "handler plainHelpers ?hit = Some w' \<and>
            Response (ctx w') =
              (Response (ctx ?hit))\<lparr>body := Body sampleResponse,
                 respHeader := fold (\<lambda>h. SetCanonical (Key h) (Value h)) (Headers sampleResponse)
                                 (respHeader (Response (ctx ?hit)))\<rparr> \<and>
            statusCode (Response (ctx w')) = statusCode (Response (ctx ?hit)) \<and>
            (statusCode (Response (ctx ?hit)) = 0 \<longrightarrow> StatusCode (Response (ctx w')) = 200)" ..
  note hw = all[THEN conjunct1]
  note rw = all[THEN conjunct2, THEN conjunct1]
  note sw = all[THEN conjunct2, THEN conjunct2, THEN conjunct2, THEN mp, OF z]
  have bw: "body (Response (ctx w')) = ''Test Body''"
    unfolding rw by (simp add: sampleResponse_def)
  have p1: "\<exists>w'. handler plainHelpers ?hit = Some w' \<and>
          StatusCode (Response (ctx w')) = 200 \<and> body (Response (ctx w')) = ''Test Body''"
    by (rule exI[of _ w']) (intro conjI hw sw bw)
  from sample_handler_outcome obtain w1 where
    h1: "handler plainHelpers ?W = Some w1"
    and s1: "store (cache (proxy w1)) ''test'' = Some (Marshal [sampleResponse])"
    unfolding handlerOutcome_def rh by (auto split: option.splits)
  have ch1: "cache (proxy w1) \<noteq> cache (proxy ?W)" using s1 st0 by auto
  note p2 = cache_hit_status_200[where H = plainHelpers and w = ?W and ?w1.0 = w1,
      THEN conjunct2, THEN conjunct1, THEN mp, OF conjI[OF h1 ch1]]
  have q2: "\<exists>w1. handler plainHelpers ?W = Some w1 \<and> cache (proxy w1) \<noteq> cache (proxy ?W) \<and>
         StatusCode (Response (ctx w1)) = 200"
    by (rule exI[of _ w1]) (intro conjI h1 ch1 p2)
  have gb: "getBackend (proxy ?W) = (Some (0, replyWith sampleReply), proxyOf [replyWith sampleReply])"
    by (rule sample_getBackend)
  have do: "httpClient_do (replyWith sampleReply) (backendRequest ''/test/'' acquireTools (ctx ?W))
      (hcResp acquireTools) = (None, ?req2, sampleReply)"
    by (rule sample_do)
  from sample_fetch_outcome obtain e w2 where
    f: "fetchFromBackend plainHelpers ''test'' ''/test/'' acquireTools ?W = Some (e, w2)"
    and s2: "store (cache (proxy w2)) ''test'' = Some (Marshal [sampleResponse])"
    unfolding fetchOutcome_def by (auto split: option.splits)
  have ch2: "cache (proxy w2) \<noteq> cache (proxy ?W)" using s2 st0 by auto
  note p3 = cache_hit_status_200[where H = plainHelpers and w = ?W,
      THEN conjunct2, THEN conjunct2, THEN mp, OF conjI[OF gb conjI[OF do conjI[OF f ch2]]]]
  have q3: "\<exists>e w2. getBackend (proxy ?W) = (Some (0, replyWith sampleReply), proxyOf [replyWith sampleReply]) \<and>
           httpClient_do (replyWith sampleReply) (backendRequest ''/test/'' acquireTools (ctx ?W))
               (hcResp acquireTools) = (None, ?req2, sampleReply) \<and>
           fetchFromBackend plainHelpers ''test'' ''/test/'' acquireTools ?W = Some (e, w2) \<and>
           cache (proxy w2) \<noteq> cache (proxy ?W) \<and> StatusCode sampleReply = 200"
    by (rule exI[of _ e], rule exI[of _ w2]) (intro conjI gb do f ch2 p3)
  show ?thesis
    by (intro conjI n1 l1 z p1 q2 q3)
qed

text \<open>
  Claim C2 on the code. The no-cache evaluation fails on the request (and again on
  the response): the handler answers 500 and stores nothing, but only after it has
  forwarded the request to the backend.
\<close>

theorem handler_eval_error_forwards:
  "checkIfNoCache errHelpers sampleRequest emptyResponse [] = Inl ''Invalid nocache rule'' \<and>
   handlerOutcome errHelpers (worldOf (proxyOf [replyWith sampleReply]) sampleRequest)
     = Some (500, [EvalOnRequest, Forwarded 0, EvalOnResponse], None)"
  by code_simp

section \<open>Start-up\<close>

text \<open>
  Claim C7 on the code. With an empty backend address list, and nothing else wrong,
  \<open>New\<close> returns a proxy and no error; the proxy has no backend, and the first
  request it handles panics in \<open>getBackend\<close>.
\<close>

theorem New_accepts_no_backends:
  "BackendsAddrs (cfgProxy noBackendsConfig) = [] \<and>
   NewOutcome sampleStartup 0 noBackendsConfig plainHelpers sampleRequest = Some (Inr (0, 0, None))"
  by code_simp

section \<open>The admin view\<close>

text \<open>
  Claim C8, as amended. The view answers 200 \<open>OK\<close> exactly when the body parses
  and \<open>Add\<close> accepts the entry, which is then the last of the queue. When the body
  parses and \<open>Add\<close> rejects the entry, the view answers 400 with the message of
  \<open>Add\<close> and the admin module is as it was. When the body does not parse, the view
  writes no response: it returns the error of the parser to the framework, and the
  admin module is as it was.
\<close>

theorem invalidateView_responses:
  "(answered (invalidateView js a c) 200 =
      (\<exists>e i. js (PostBody c) = Inr e \<and> Add (invalidator a) e = Inr i)) \<and>
   (\<forall>e i. js (PostBody c) = Inr e \<and> Add (invalidator a) e = Inr i \<longrightarrow>
      invalidateView js a c = (None, TextResponse ''OK'' 200 c, a\<lparr>invalidator := i\<rparr>) \<and>
      chEntries i = chEntries (invalidator a) @ [e]) \<and>
   (\<forall>e m. js (PostBody c) = Inr e \<and> Add (invalidator a) e = Inl m \<longrightarrow>
      invalidateView js a c = (None, TextResponse m 400 c, a) \<and>
      answered (invalidateView js a c) 400) \<and>
   (\<forall>m. js (PostBody c) = Inl m \<longrightarrow> invalidateView js a c = (Some m, c, a))"
proof (intro conjI allI impI)
  show "answered (invalidateView js a c) 200 =
      (\<exists>e i. js (PostBody c) = Inr e \<and> Add (invalidator a) e = Inr i)"
    by (auto simp: answered_def invalidateView_def TextResponse_def StatusCode_def StatusOK_def
        split: sum.splits)
next
  fix e i assume h: "js (PostBody c) = Inr e \<and> Add (invalidator a) e = Inr i"
  then show "invalidateView js a c = (None, TextResponse ''OK'' 200 c, a\<lparr>invalidator := i\<rparr>)"
    by (simp add: invalidateView_def)
  from h show "chEntries i = chEntries (invalidator a) @ [e]"
    by (auto simp: Add_def split: if_splits)
next
  fix e m assume h: "js (PostBody c) = Inr e \<and> Add (invalidator a) e = Inl m"
  then show "invalidateView js a c = (None, TextResponse m 400 c, a)"
    by (simp add: invalidateView_def)
  from h show "answered (invalidateView js a c) 400"
    by (simp add: invalidateView_def answered_def TextResponse_def StatusCode_def)
next
  fix m assume "js (PostBody c) = Inl m"
  then show "invalidateView js a c = (Some m, c, a)"
    by (simp add: invalidateView_def)
qed

lemma sample_bodies:
  "sampleUnmarshal hostBody
     = Inr \<lparr>Host = ''www.kratgo.com'', invPath = [], Header = \<lparr>ehKey = [], ehValue = []\<rparr>\<rparr>"
  "sampleUnmarshal ''{}'' = Inr \<lparr>Host = [], invPath = [], Header = \<lparr>ehKey = [], ehValue = []\<rparr>\<rparr>"
  "sampleUnmarshal ''{'' = Inl ''unexpected end of JSON input''"
  by (simp_all add: sampleUnmarshal_def hostBody_def)

theorem invalidateView_responses_witness:
  "sampleUnmarshal (PostBody (postOf hostBody))
     = Inr \<lparr>Host = ''www.kratgo.com'', invPath = [], Header = \<lparr>ehKey = [], ehValue = []\<rparr>\<rparr> \<and>
   Add (invalidator sampleAdmin) \<lparr>Host = ''www.kratgo.com'', invPath = [], Header = \<lparr>ehKey = [], ehValue = []\<rparr>\<rparr>
     = Inr \<lparr>chEntries = [\<lparr>Host = ''www.kratgo.com'', invPath = [], Header = \<lparr>ehKey = [], ehValue = []\<rparr>\<rparr>],
            chCapacity = 2\<rparr> \<and>
   answered (invalidateView sampleUnmarshal sampleAdmin (postOf hostBody)) 200 \<and>
   sampleUnmarshal (PostBody (postOf ''{}''))
     = Inr \<lparr>Host = [], invPath = [], Header = \<lparr>ehKey = [], ehValue = []\<rparr>\<rparr> \<and>
   Add (invalidator sampleAdmin) \<lparr>Host = [], invPath = [], Header = \<lparr>ehKey = [], ehValue = []\<rparr>\<rparr>
     = Inl ''invalid entry: the host is mandatory'' \<and>
   answered (invalidateView sampleUnmarshal sampleAdmin (postOf ''{}'')) 400 \<and>
   sampleUnmarshal (PostBody (postOf ''{'')) = Inl ''unexpected end of JSON input'' \<and>
   invalidateView sampleUnmarshal sampleAdmin (postOf ''{'')
     = (Some ''unexpected end of JSON input'', postOf ''{'', sampleAdmin)"
proof -
  let ?e1 = "\<lparr>Host = ''www.kratgo.com'', invPath = [], Header = \<lparr>ehKey = [], ehValue = []\<rparr>\<rparr>"
  let ?i1 = "\<lparr>chEntries = [?e1], chCapacity = 2\<rparr>"
  let ?e0 = "\<lparr>Host = [], invPath = [], Header = \<lparr>ehKey = [], ehValue = []\<rparr>\<rparr>"
  have u1: "sampleUnmarshal (PostBody (postOf hostBody)) = Inr ?e1"
    by (simp add: postOf_def sample_bodies)
  have a1: "Add (invalidator sampleAdmin) ?e1 = Inr ?i1"
    by (simp add: Add_def sampleAdmin_def)
  have u0: "sampleUnmarshal (PostBody (postOf ''{}'')) = Inr ?e0"
    by (simp add: postOf_def sample_bodies)
  have a0: "Add (invalidator sampleAdmin) ?e0 = Inl ''invalid entry: the host is mandatory''"
    by (simp add: Add_def sampleAdmin_def)
  have u2: "sampleUnmarshal (PostBody (postOf ''{'')) = Inl ''unexpected end of JSON input''"
    by (simp add: postOf_def sample_bodies)
  note T1 = invalidateView_responses[of sampleUnmarshal sampleAdmin "postOf hostBody"]
  note T0 = invalidateView_responses[of sampleUnmarshal sampleAdmin "postOf ''{}''"]
  note T2 = invalidateView_responses[of sampleUnmarshal sampleAdmin "postOf ''{''"]
  have r1: "answered (invalidateView sampleUnmarshal sampleAdmin (postOf hostBody)) 200"
    using T1[THEN conjunct1] u1 a1 by simp
  have r0: "answered (invalidateView sampleUnmarshal sampleAdmin (postOf ''{}'')) 400"
    using T0[THEN conjunct2, THEN conjunct2, THEN conjunct1, THEN spec, THEN spec, THEN mp, OF conjI[OF u0 a0]]
    by (rule conjunct2)
  have r2: "invalidateView sampleUnmarshal sampleAdmin (postOf ''{'')
     = (Some ''unexpected end of JSON input'', postOf ''{'', sampleAdmin)"
    using T2[THEN conjunct2, THEN conjunct2, THEN conjunct2, THEN spec, THEN mp, OF u2] .
  show ?thesis by (intro conjI u1 a1 r1 u0 a0 r0 u2 r2)
qed

text \<open>
  The claim as stated fails for a body that does not parse: the view does not answer
  400 (it writes no response at all and returns the error of the parser).
\<close>

theorem invalidateView_bad_json_counterexample:
  "sampleUnmarshal ''{'' = Inl ''unexpected end of JSON input'' \<and>
   \<not> answered (invalidateView sampleUnmarshal sampleAdmin (postOf ''{'')) 400 \<and>
   StatusCode (viewResponse (fst (snd (invalidateView sampleUnmarshal sampleAdmin (postOf ''{''))))) \<noteq> 400"
  by code_simp

end
